theory Spec2Isabelle
  imports Main
begin

section \<open>Data model (src/types.ts)\<close>

text \<open>
  The interfaces of \<^verbatim>\<open>types.ts\<close> become records, string-literal unions become
  datatypes, optional fields (\<^verbatim>\<open>field?: string\<close>) become \<open>string option\<close> with
  \<open>None\<close> for \<^verbatim>\<open>undefined\<close>. A JavaScript string is modelled as a list of
  characters, one \<open>char\<close> per code unit; the operations used here (\<^verbatim>\<open>startsWith\<close>,
  \<^verbatim>\<open>includes\<close>, \<^verbatim>\<open>replace\<close> of a quote, \<^verbatim>\<open>join\<close>, \<^verbatim>\<open>substring\<close>) work unit by unit.
\<close>

record UrlAnalysis =
  topic :: string
  coreContent :: string
  primaryKeyword :: string
  secondaryKeywords :: "string list"
  searchIntent :: string
  mainBenefits :: "string list"
  targetAudience :: string
  visualAngleOpportunities :: string

datatype TargetUserLevel = Beginner | Advanced | AllLevels

datatype IntentType = Informational | Commercial

datatype StyleType = Lifestyle | Editorial | Collage | StepFeature | CloseUpWide

datatype Distance = CloseUp | Medium | Wide

datatype Lighting = Warm | Neutral | Bright | Dramatic

record Strategy =
  seoAngle :: string
  emotionalTrigger :: string
  headlineStyle :: string
  visualStyle :: string
  targetUserLevel :: TargetUserLevel
  intentType :: IntentType

record CompositionParams =
  cameraAngle :: string
  distance :: Distance
  lighting :: Lighting

record VisualStrategy =
  styleType :: StyleType
  compositionParams :: CompositionParams
  textOverlay :: string
  supportingText :: "string option"
  imagePrompt :: string
  colorPalette :: "string list"

record PerformanceIntelligence =
  viralHook :: string
  ctrBooster :: string
  distributionVelocity :: string

record ExperimentationLayer =
  hypothesis :: string
  testMetric :: string
  winnerAction :: string

record AuthorityLayer =
  nicheDominance :: string
  trustSignal :: string
  stabilityStrategy :: string

record PinVariation =
  title :: string
  description :: string
  altText :: string
  suggestedBoards :: "string list"
  "keywords" :: "string list"
  strategy :: Strategy
  visualStrategy :: VisualStrategy
  performanceIntelligence :: PerformanceIntelligence
  experimentationLayer :: ExperimentationLayer
  authorityLayer :: AuthorityLayer
  scheduledDate :: "string option"
  generatedImageUrl :: "string option"
  publicMediaUrl :: "string option"

record CampaignResult =
  sourceUrl :: string
  analysis :: UrlAnalysis
  variations :: "PinVariation list"

text \<open>
  A JavaScript \<^verbatim>\<open>number\<close> as far as the scheduler reads it: \<open>NaN\<close>, or an
  integer value \<open>Num n\<close>. Fractional and infinite values are outside this model.
\<close>

datatype number = NaN | Num int

record AppSettings =
  pinsPerDay :: number
  startDate :: string
  variationsPerUrl :: number

section \<open>Strings of the JavaScript runtime\<close>

abbreviation dquote :: char where
  "dquote \<equiv> CHR 0x22"

abbreviation newline :: char where
  "newline \<equiv> CHR 0x0A"

text \<open>\<^verbatim>\<open>String(n)\<close> for an integer \<open>n\<close>: decimal digits, with a minus sign.\<close>

fun digits :: "nat \<Rightarrow> string" where
  "digits n = (if n < 10 then [''0123456789'' ! n]
               else digits (n div 10) @ [''0123456789'' ! (n mod 10)])"

declare digits.simps [simp del]

definition String :: "int \<Rightarrow> string" where
  "String n = (if n < 0 then CHR ''-'' # digits (nat (- n)) else digits (nat n))"

text \<open>\<^verbatim>\<open>String(x)\<close> for a number that may be \<^verbatim>\<open>NaN\<close>.\<close>

definition StringOpt :: "int option \<Rightarrow> string" where
  "StringOpt x = (case x of None \<Rightarrow> ''NaN'' | Some n \<Rightarrow> String n)"

text \<open>\<^verbatim>\<open>s.padStart(n, '0')\<close>.\<close>

definition padStart :: "string \<Rightarrow> nat \<Rightarrow> string" where
  "padStart s n = replicate (n - length s) CHR ''0'' @ s"

text \<open>\<^verbatim>\<open>s.startsWith(p)\<close>.\<close>

fun startsWith :: "string \<Rightarrow> string \<Rightarrow> bool" where
  "startsWith s [] = True"
| "startsWith [] (p # ps) = False"
| "startsWith (c # cs) (p # ps) = (c = p \<and> startsWith cs ps)"

text \<open>\<^verbatim>\<open>s.includes(p)\<close>: \<open>p\<close> occurs in \<open>s\<close> at some position.\<close>

fun includesStr :: "string \<Rightarrow> string \<Rightarrow> bool" where
  "includesStr [] p = (p = [])"
| "includesStr (c # cs) p = (startsWith (c # cs) p \<or> includesStr cs p)"

text \<open>\<^verbatim>\<open>xs.join(sep)\<close>.\<close>

fun join :: "string list \<Rightarrow> string \<Rightarrow> string" where
  "join [] sep = []"
| "join [x] sep = x"
| "join (x # y # ys) sep = x @ sep @ join (y # ys) sep"

section \<open>Dates of the JavaScript runtime\<close>

text \<open>
  A \<^verbatim>\<open>Date\<close> object holds a time value: milliseconds since the epoch in UTC, or
  \<^verbatim>\<open>NaN\<close> (the invalid date), here \<open>int option\<close>. Its getters and setters with local
  names (\<^verbatim>\<open>getDate\<close>, \<^verbatim>\<open>setDate\<close>, \<^verbatim>\<open>setHours\<close>, ...) work on local time. The local time
  zone of the runtime is a parameter \<open>tza\<close> of the model: the offset of local time from
  UTC in milliseconds, taken as constant (a zone without daylight-saving changes).
  The functions follow the abstract operations of ECMAScript (sections on time values,
  \<^verbatim>\<open>MakeDay\<close>, \<^verbatim>\<open>MakeTime\<close>, \<^verbatim>\<open>MakeDate\<close>, \<^verbatim>\<open>TimeClip\<close>); the conversion between day
  numbers and calendar dates is computed in closed form on the proleptic Gregorian
  calendar.
\<close>

definition msPerDay :: int where
  "msPerDay = 86400000"

definition msPerHour :: int where
  "msPerHour = 3600000"

definition msPerMinute :: int where
  "msPerMinute = 60000"

definition Day :: "int \<Rightarrow> int" where
  "Day t = t div msPerDay"

definition TimeWithinDay :: "int \<Rightarrow> int" where
  "TimeWithinDay t = t mod msPerDay"

text \<open>Day number (days since 1970-01-01) of year \<open>y\<close>, month \<open>m\<close> in 1..12, day \<open>d\<close>.\<close>

definition daysFromCivil :: "int \<Rightarrow> int \<Rightarrow> int \<Rightarrow> int" where
  "daysFromCivil y m d =
     (let y' = (if m \<le> 2 then y - 1 else y);
          era = y' div 400;
          yoe = y' - era * 400;
          doy = (153 * (if m > 2 then m - 3 else m + 9) + 2) div 5 + d - 1;
          doe = yoe * 365 + yoe div 4 - yoe div 100 + doy
      in era * 146097 + doe - 719468)"

text \<open>Calendar date (year, month in 1..12, day of month) of a day number.\<close>

definition civilFromDays :: "int \<Rightarrow> int \<times> int \<times> int" where
  "civilFromDays z =
     (let z' = z + 719468;
          era = z' div 146097;
          doe = z' - era * 146097;
          yoe = (doe - doe div 1460 + doe div 36524 - doe div 146096) div 365;
          doy = doe - (365 * yoe + yoe div 4 - yoe div 100);
          mp = (5 * doy + 2) div 153;
          d = doy - (153 * mp + 2) div 5 + 1;
          m = (if mp < 10 then mp + 3 else mp - 9);
          y = yoe + era * 400
      in (if m \<le> 2 then y + 1 else y, m, d))"

definition YearFromTime :: "int \<Rightarrow> int" where
  "YearFromTime t = fst (civilFromDays (Day t))"

text \<open>Months are numbered from 0, as in ECMAScript.\<close>

definition MonthFromTime :: "int \<Rightarrow> int" where
  "MonthFromTime t = fst (snd (civilFromDays (Day t))) - 1"

definition DateFromTime :: "int \<Rightarrow> int" where
  "DateFromTime t = snd (snd (civilFromDays (Day t)))"

definition HourFromTime :: "int \<Rightarrow> int" where
  "HourFromTime t = (t div msPerHour) mod 24"

definition MinFromTime :: "int \<Rightarrow> int" where
  "MinFromTime t = (t div msPerMinute) mod 60"

definition MakeTime :: "int \<Rightarrow> int \<Rightarrow> int \<Rightarrow> int \<Rightarrow> int" where
  "MakeTime hour minute sec ms = hour * msPerHour + minute * msPerMinute + sec * 1000 + ms"

text \<open>\<open>month\<close> counts from 0 and may lie outside 0..11; \<open>date\<close> may lie outside the month.\<close>

definition MakeDay :: "int \<Rightarrow> int \<Rightarrow> int \<Rightarrow> int" where
  "MakeDay year month date =
     (let ym = year + month div 12; mn = month mod 12
      in daysFromCivil ym (mn + 1) 1 + date - 1)"

definition MakeDate :: "int \<Rightarrow> int \<Rightarrow> int" where
  "MakeDate day time = day * msPerDay + time"

definition TimeClip :: "int \<Rightarrow> int option" where
  "TimeClip t = (if \<bar>t\<bar> > 8640000000000000 then None else Some t)"

definition LocalTime :: "int \<Rightarrow> int \<Rightarrow> int" where
  "LocalTime tza t = t + tza"

definition UTC :: "int \<Rightarrow> int \<Rightarrow> int" where
  "UTC tza t = t - tza"

type_synonym Date = "int option"

definition getFullYear :: "int \<Rightarrow> Date \<Rightarrow> int option" where
  "getFullYear tza d = map_option (\<lambda>t. YearFromTime (LocalTime tza t)) d"

definition getMonth :: "int \<Rightarrow> Date \<Rightarrow> int option" where
  "getMonth tza d = map_option (\<lambda>t. MonthFromTime (LocalTime tza t)) d"

definition getDate :: "int \<Rightarrow> Date \<Rightarrow> int option" where
  "getDate tza d = map_option (\<lambda>t. DateFromTime (LocalTime tza t)) d"

definition getHours :: "int \<Rightarrow> Date \<Rightarrow> int option" where
  "getHours tza d = map_option (\<lambda>t. HourFromTime (LocalTime tza t)) d"

definition getMinutes :: "int \<Rightarrow> Date \<Rightarrow> int option" where
  "getMinutes tza d = map_option (\<lambda>t. MinFromTime (LocalTime tza t)) d"

text \<open>\<^verbatim>\<open>date.setDate(dt)\<close>, where \<open>dt\<close> may be \<^verbatim>\<open>NaN\<close>; returns the updated date.\<close>

definition setDate :: "int \<Rightarrow> Date \<Rightarrow> int option \<Rightarrow> Date" where
  "setDate tza d dt =
     (case d of None \<Rightarrow> None
      | Some tv \<Rightarrow>
          (case dt of None \<Rightarrow> None
           | Some n \<Rightarrow>
               (let t = LocalTime tza tv;
                    newDate = MakeDate (MakeDay (YearFromTime t) (MonthFromTime t) n)
                                (TimeWithinDay t)
                in TimeClip (UTC tza newDate))))"

text \<open>\<^verbatim>\<open>date.setHours(hour, min, sec, ms)\<close>; returns the updated date.\<close>

definition setHours :: "int \<Rightarrow> Date \<Rightarrow> int \<Rightarrow> int \<Rightarrow> int \<Rightarrow> int \<Rightarrow> Date" where
  "setHours tza d hour minute sec ms =
     (case d of None \<Rightarrow> None
      | Some tv \<Rightarrow>
          (let t = LocalTime tza tv;
               date = MakeDate (Day t) (MakeTime hour minute sec ms)
           in TimeClip (UTC tza date)))"

text \<open>
  \<^verbatim>\<open>new Date(s)\<close> for a string. By the date-time string format of ECMAScript a
  string of the date-only form \<^verbatim>\<open>YYYY-MM-DD\<close> that names a day of the calendar (the
  form the application produces for \<^verbatim>\<open>startDate\<close>) is midnight UTC of that day. Every
  other string (the other forms of that format, the notations an engine accepts beyond
  it, and what it does not recognise, which gives the invalid date) is read by the
  parameter \<open>fallbackParse\<close> of the model: whatever the runtime returns for it.
\<close>

definition isDigit :: "char \<Rightarrow> bool" where
  "isDigit c = (c \<in> set ''0123456789'')"

definition digitVal :: "char \<Rightarrow> int" where
  "digitVal c = int (of_char c) - 48"

fun numVal :: "string \<Rightarrow> int" where
  "numVal s = foldl (\<lambda>acc c. acc * 10 + digitVal c) 0 s"

definition daysInMonth :: "int \<Rightarrow> int \<Rightarrow> int" where
  "daysInMonth y m =
     (if m = 2 then (if y mod 4 = 0 \<and> (y mod 100 \<noteq> 0 \<or> y mod 400 = 0) then 29 else 28)
      else if m = 4 \<or> m = 6 \<or> m = 9 \<or> m = 11 then 30
      else 31)"

definition parseDate :: "(string \<Rightarrow> Date) \<Rightarrow> string \<Rightarrow> Date" where
  "parseDate fallbackParse s =
     (case s of
        [y1, y2, y3, y4, s1, m1, m2, s2, d1, d2] \<Rightarrow>
          (if list_all isDigit [y1, y2, y3, y4, m1, m2, d1, d2]
              \<and> s1 = CHR ''-'' \<and> s2 = CHR ''-''
              \<and> 1 \<le> numVal [m1, m2] \<and> numVal [m1, m2] \<le> 12
              \<and> 1 \<le> numVal [d1, d2]
              \<and> numVal [d1, d2] \<le> daysInMonth (numVal [y1, y2, y3, y4]) (numVal [m1, m2])
           then TimeClip (MakeDate
                  (MakeDay (numVal [y1, y2, y3, y4]) (numVal [m1, m2] - 1) (numVal [d1, d2])) 0)
           else fallbackParse s)
      | _ \<Rightarrow> fallbackParse s)"

section \<open>The scheduler (src/utils/scheduling.ts)\<close>

text \<open>\<^verbatim>\<open>Math.max(1, rawPinsPerDay || 3)\<close>: \<^verbatim>\<open>NaN\<close> and \<open>0\<close> are falsy.\<close>

definition effectivePinsPerDay :: "number \<Rightarrow> int" where
  "effectivePinsPerDay rawPinsPerDay =
     max 1 (case rawPinsPerDay of NaN \<Rightarrow> 3 | Num n \<Rightarrow> if n = 0 then 3 else n)"

record FlattenedPin =
  url :: string
  variation :: PinVariation
  uIdx :: nat
  vIdx :: nat

record ScheduledPin = FlattenedPin +
  dateStr :: string

text \<open>Step 1: the two nested \<^verbatim>\<open>forEach\<close> loops pushing onto \<^verbatim>\<open>flattenedPins\<close>.\<close>

definition flattenFrom :: "nat \<Rightarrow> CampaignResult list \<Rightarrow> FlattenedPin list" where
  "flattenFrom u0 results =
     concat (map (\<lambda>(u, r).
        map (\<lambda>(v, x). \<lparr>url = sourceUrl r, variation = x, uIdx = u, vIdx = v\<rparr>)
          (enumerate 0 (variations r)))
       (enumerate u0 results))"

definition flattenedPins :: "CampaignResult list \<Rightarrow> FlattenedPin list" where
  "flattenedPins results = flattenFrom 0 results"

text \<open>The values computed at lines 32 and 37 to 39 for the item at \<open>index\<close>.\<close>

definition dayOffset :: "int \<Rightarrow> nat \<Rightarrow> int" where
  "dayOffset perDay index = int index div perDay"

definition pinIndexInDay :: "int \<Rightarrow> nat \<Rightarrow> int" where
  "pinIndexInDay perDay index = int index mod perDay"

definition slotHour :: "int \<Rightarrow> nat \<Rightarrow> int" where
  "slotHour perDay index = 9 + (pinIndexInDay perDay index * 12) div perDay"

definition slotMinute :: "int \<Rightarrow> nat \<Rightarrow> int" where
  "slotMinute perDay index = (pinIndexInDay perDay index * 17) mod 60"

definition pad :: "int option \<Rightarrow> string" where
  "pad n = padStart (StringOpt n) 2"

text \<open>The body of the \<^verbatim>\<open>map\<close> callback of step 2: the date string of the item at \<open>index\<close>.\<close>

definition slotDateStr :: "int \<Rightarrow> Date \<Rightarrow> int \<Rightarrow> nat \<Rightarrow> string" where
  "slotDateStr tza start perDay index =
     (let date0 = start;
          date1 = setDate tza date0
                    (map_option (\<lambda>d. d + dayOffset perDay index) (getDate tza start));
          date = setHours tza date1 (slotHour perDay index) (slotMinute perDay index) 0 0
      in StringOpt (getFullYear tza date) @ ''-''
         @ pad (map_option (\<lambda>m. m + 1) (getMonth tza date)) @ ''-''
         @ pad (getDate tza date) @ '' ''
         @ pad (getHours tza date) @ '':''
         @ pad (getMinutes tza date))"

definition scheduledFrom ::
  "(nat \<Rightarrow> string) \<Rightarrow> nat \<Rightarrow> FlattenedPin list \<Rightarrow> ScheduledPin list" where
  "scheduledFrom f k items =
     map (\<lambda>(index, item).
        \<lparr>url = url item, variation = variation item, uIdx = uIdx item, vIdx = vIdx item,
         dateStr = f index\<rparr>)
       (enumerate k items)"

text \<open>Step 3: the re-mapping, with the lookup by \<^verbatim>\<open>find\<close> on the two indices.\<close>

definition remapFrom :: "ScheduledPin list \<Rightarrow> nat \<Rightarrow> CampaignResult list \<Rightarrow> CampaignResult list" where
  "remapFrom scheduledFlat u0 results =
     map (\<lambda>(u, urlResult).
        urlResult\<lparr>variations :=
          map (\<lambda>(v, x).
             x\<lparr>scheduledDate :=
                 Some (case find (\<lambda>s. uIdx s = u \<and> vIdx s = v) scheduledFlat of
                         Some scheduled \<Rightarrow> dateStr scheduled
                       | None \<Rightarrow> [])\<rparr>)
            (enumerate 0 (variations urlResult))\<rparr>)
       (enumerate u0 results)"

text \<open>
  The runtime is a parameter of the function: \<open>fallbackParse\<close>, the engine's reading of
  date strings outside the ECMAScript format, and \<open>tza\<close>, the offset of local time.
\<close>

definition scheduleCampaign ::
  "(string \<Rightarrow> Date) \<Rightarrow> int \<Rightarrow> CampaignResult list \<Rightarrow> AppSettings \<Rightarrow> CampaignResult list" where
  "scheduleCampaign fallbackParse tza results settings =
     (let perDay = effectivePinsPerDay (pinsPerDay settings);
          start = parseDate fallbackParse (startDate settings);
          scheduledFlat = scheduledFrom (slotDateStr tza start perDay) 0 (flattenedPins results)
      in remapFrom scheduledFlat 0 results)"

section \<open>The export validator (src/public/utils/csv)\<close>

text \<open>
  Every \<^verbatim>\<open>throw\<close> of the export is a value of \<open>error\<close>: the three kinds of
  \<^verbatim>\<open>new Error(...)\<close> the source raises, each with the data its message is built from,
  and the \<^verbatim>\<open>TypeError\<close> the runtime raises when a method is read from
  \<^verbatim>\<open>undefined\<close> (the argument is the name of the method). \<open>message\<close> builds the
  message text as the template strings of the source do; for the \<^verbatim>\<open>TypeError\<close> the
  wording is the engine's own, here the one of V8.
\<close>

datatype RowFault =
    TitleEmpty
  | MediaUrlNotPublic string
  | BoardEmpty
  | DescriptionEmpty
  | LinkNotHttps
  | DateEmpty
  | KeywordsEmpty

datatype error =
    CloudSyncMissing string
  | BatchIntegrityFailure nat nat
  | RowInvalid nat RowFault
  | TypeError string

fun faultText :: "RowFault \<Rightarrow> string" where
  "faultText TitleEmpty = ''Title empty.''"
| "faultText (MediaUrlNotPublic current) =
     ''Media URL is not a public HTTPS link. Current: '' @ current @ ''...''"
| "faultText BoardEmpty = ''Board empty.''"
| "faultText DescriptionEmpty = ''Description empty.''"
| "faultText LinkNotHttps = ''Link empty or not HTTPS.''"
| "faultText DateEmpty = ''Date empty.''"
| "faultText KeywordsEmpty = ''Keywords empty.''"

fun message :: "error \<Rightarrow> string" where
  "message (CloudSyncMissing t) =
     ''Cloud Sync Missing: Variation '' @ [dquote] @ t @ [dquote]
       @ '' has no public HTTPS URL. Export blocked.''"
| "message (BatchIntegrityFailure expectedTotal found) =
     ''Batch Integrity Failure: Expected '' @ String (int expectedTotal) @ '' rows, found ''
       @ String (int found) @ ''.''"
| "message (RowInvalid idx fault) = ''Row '' @ String (int idx) @ '': '' @ faultText fault"
| "message (TypeError m) =
     ''Cannot read properties of undefined (reading '' @ [CHR 0x27] @ m @ [CHR 0x27] @ '')''"

text \<open>
  \<^verbatim>\<open>cell.replace(/^"|"$/g, '')\<close>: one double quote at the start and one at the end
  of what is left are removed.
\<close>

definition stripQuotes :: "string \<Rightarrow> string" where
  "stripQuotes cell =
     (let t = (case cell of [] \<Rightarrow> [] | c # cs \<Rightarrow> if c = dquote then cs else cell)
      in if t \<noteq> [] \<and> last t = dquote then butlast t else t)"

text \<open>\<^verbatim>\<open>s.replace(/"/g, '""')\<close>.\<close>

definition escapeQuotes :: "string \<Rightarrow> string" where
  "escapeQuotes s = concat (map (\<lambda>c. if c = dquote then [dquote, dquote] else [c]) s)"

text \<open>The template \<^verbatim>\<open>`"${s}"`\<close>.\<close>

definition quoted :: "string \<Rightarrow> string" where
  "quoted s = [dquote] @ s @ [dquote]"

text \<open>An element of the destructured array: \<^verbatim>\<open>undefined\<close> beyond its length.\<close>

definition cellAt :: "string list \<Rightarrow> nat \<Rightarrow> string option" where
  "cellAt cells k = (if k < length cells then Some (cells ! k) else None)"

text \<open>\<^verbatim>\<open>!s\<close> for a string that may be \<^verbatim>\<open>undefined\<close>.\<close>

definition falsy :: "string option \<Rightarrow> bool" where
  "falsy s = (s = None \<or> s = Some [])"

definition validateRow :: "string list \<Rightarrow> nat \<Rightarrow> error + bool" where
  "validateRow row idx =
     (let cells = map stripQuotes row;
          title = cellAt cells 0; mediaUrl = cellAt cells 1; board = cellAt cells 2;
          description = cellAt cells 3; link = cellAt cells 4; date = cellAt cells 5;
          keywords = cellAt cells 6
      in if falsy title then Inl (RowInvalid idx TitleEmpty)
         else if (case mediaUrl of None \<Rightarrow> True
                  | Some m \<Rightarrow> m = [] \<or> \<not> startsWith m ''https://''
                      \<or> includesStr m ''data:image'' \<or> includesStr m ''blob:'')
           then (case mediaUrl of None \<Rightarrow> Inl (TypeError ''substring'')
                 | Some m \<Rightarrow> Inl (RowInvalid idx (MediaUrlNotPublic (take 30 m))))
         else if falsy board then Inl (RowInvalid idx BoardEmpty)
         else if falsy description then Inl (RowInvalid idx DescriptionEmpty)
         else if (case link of None \<Rightarrow> True
                  | Some l \<Rightarrow> l = [] \<or> \<not> startsWith l ''https://'')
           then Inl (RowInvalid idx LinkNotHttps)
         else if falsy date then Inl (RowInvalid idx DateEmpty)
         else if falsy keywords then Inl (RowInvalid idx KeywordsEmpty)
         else Inr True)"

text \<open>
  The callback of the inner \<^verbatim>\<open>map\<close> (lines 36 to 53): the gate on
  \<^verbatim>\<open>publicMediaUrl\<close>, then the array of seven cells, whose third element reads
  \<^verbatim>\<open>suggestedBoards[0].replace\<close>.
\<close>

definition projectRow :: "CampaignResult \<Rightarrow> PinVariation \<Rightarrow> error + string list" where
  "projectRow urlResult v =
     (case publicMediaUrl v of
        None \<Rightarrow> Inl (CloudSyncMissing (title v))
      | Some mediaUrl \<Rightarrow>
          if mediaUrl = [] \<or> \<not> startsWith mediaUrl ''https://''
          then Inl (CloudSyncMissing (title v))
          else (case suggestedBoards v of
                  [] \<Rightarrow> Inl (TypeError ''replace'')
                | board # _ \<Rightarrow>
                    Inr [quoted (escapeQuotes (title v)),
                         quoted mediaUrl,
                         quoted (escapeQuotes board),
                         quoted (escapeQuotes (description v)),
                         quoted (sourceUrl urlResult),
                         quoted (case scheduledDate v of None \<Rightarrow> [] | Some d \<Rightarrow> d),
                         quoted (escapeQuotes (join (keywords v) '', ''))]))"

text \<open>
  Callbacks run in order and the first \<^verbatim>\<open>throw\<close> ends the whole loop: the first
  error of the list, or all the results.
\<close>

fun collect :: "(error + 'a) list \<Rightarrow> error + 'a list" where
  "collect [] = Inr []"
| "collect (x # xs) =
     (case x of Inl e \<Rightarrow> Inl e
      | Inr r \<Rightarrow> (case collect xs of Inl e \<Rightarrow> Inl e | Inr rs \<Rightarrow> Inr (r # rs)))"

text \<open>The (source, variation) pairs in input order, as \<^verbatim>\<open>flatMap\<close> visits them.\<close>

definition pairs :: "CampaignResult list \<Rightarrow> (CampaignResult \<times> PinVariation) list" where
  "pairs data = concat (map (\<lambda>urlResult. map (\<lambda>v. (urlResult, v)) (variations urlResult)) data)"

definition projectRows :: "CampaignResult list \<Rightarrow> error + string list list" where
  "projectRows data = collect (map (\<lambda>(urlResult, v). projectRow urlResult v) (pairs data))"

definition headers :: "string list" where
  "headers = [''Title'', ''Media URL'', ''Pinterest board'', ''Description'', ''Link'',
              ''Publish date'', ''Keywords'']"

definition validateRows :: "string list list \<Rightarrow> error + bool list" where
  "validateRows rows = collect (map (\<lambda>(idx, row). validateRow row (idx + 1)) (enumerate 0 rows))"

definition serialize :: "string list list \<Rightarrow> string" where
  "serialize rows = join (join headers '','' # map (\<lambda>r. join r '','') rows) [newline]"

definition generateCSVString :: "CampaignResult list \<Rightarrow> error + string" where
  "generateCSVString data =
     (let expectedTotal = length data * 3 in
      case projectRows data of
        Inl e \<Rightarrow> Inl e
      | Inr rows \<Rightarrow>
          if length rows \<noteq> expectedTotal
          then Inl (BatchIntegrityFailure expectedTotal (length rows))
          else (case validateRows rows of
                  Inl e \<Rightarrow> Inl e
                | Inr _ \<Rightarrow> Inr (serialize rows)))"

section \<open>Auxiliary definitions for the proofs\<close>

subsection \<open>The schedule as a single pass\<close>

text \<open>
  The schedule written as one pass over the results, carrying the position in the
  flattened sequence: the form in which the properties of \<open>scheduleCampaign\<close> are
  proved. \<open>scheduleCampaign_stamp\<close> below shows that the source's three steps compute it.
\<close>

fun stampVariations :: "(nat \<Rightarrow> string) \<Rightarrow> nat \<Rightarrow> PinVariation list \<Rightarrow> PinVariation list" where
  "stampVariations f k [] = []"
| "stampVariations f k (x # xs) = x\<lparr>scheduledDate := Some (f k)\<rparr> # stampVariations f (Suc k) xs"

fun stampFrom :: "(nat \<Rightarrow> string) \<Rightarrow> nat \<Rightarrow> CampaignResult list \<Rightarrow> CampaignResult list" where
  "stampFrom f k [] = []"
| "stampFrom f k (r # rs) =
     r\<lparr>variations := stampVariations f k (variations r)\<rparr> # stampFrom f (k + length (variations r)) rs"

text \<open>The results with every \<^verbatim>\<open>scheduledDate\<close> erased.\<close>

definition clearDates :: "CampaignResult list \<Rightarrow> CampaignResult list" where
  "clearDates results =
     map (\<lambda>r. r\<lparr>variations := map (\<lambda>x. x\<lparr>scheduledDate := None\<rparr>) (variations r)\<rparr>) results"

text \<open>The part of \<^verbatim>\<open>scheduledFlat\<close> that comes from one source.\<close>

definition scheduledRow :: "(nat \<Rightarrow> string) \<Rightarrow> nat \<Rightarrow> nat \<Rightarrow> CampaignResult \<Rightarrow> ScheduledPin list" where
  "scheduledRow f k u0 r =
     scheduledFrom f k (map (\<lambda>(v, x). \<lparr>url = sourceUrl r, variation = x, uIdx = u0, vIdx = v\<rparr>)
       (enumerate 0 (variations r)))"



subsection \<open>Conditions of the export, in the words of the specification\<close>

text \<open>
  The public-URL gate passes when \<^verbatim>\<open>publicMediaUrl\<close> is present and starts with
  \<^verbatim>\<open>https://\<close>.
\<close>

definition hasPublicUrl :: "PinVariation \<Rightarrow> bool" where
  "hasPublicUrl v =
     (case publicMediaUrl v of None \<Rightarrow> False | Some m \<Rightarrow> startsWith m ''https://'')"

text \<open>A variation whose row is projected: it passes the gate and has a first board.\<close>

definition projectable :: "CampaignResult \<times> PinVariation \<Rightarrow> bool" where
  "projectable p = (hasPublicUrl (snd p) \<and> suggestedBoards (snd p) \<noteq> [])"

text \<open>The total number of variations of all sources.\<close>

definition totalVariations :: "CampaignResult list \<Rightarrow> nat" where
  "totalVariations data = sum_list (map (\<lambda>r. length (variations r)) data)"

text \<open>The same results with every local preview replaced by \<open>g\<close> of the variation.\<close>

definition withPreviews ::
  "(PinVariation \<Rightarrow> string option) \<Rightarrow> CampaignResult list \<Rightarrow> CampaignResult list" where
  "withPreviews g data =
     map (\<lambda>r. r\<lparr>variations := map (\<lambda>v. v\<lparr>generatedImageUrl := g v\<rparr>) (variations r)\<rparr>) data"

text \<open>
  The per-row conditions in the words of the specification, on a row of seven cells:
  after the surrounding quotes are stripped, a row is invalid when a cell is empty,
  the Media URL (cell 1) is not HTTPS or contains \<^verbatim>\<open>data:image\<close> or \<^verbatim>\<open>blob:\<close>, or the
  Link (cell 4) is not HTTPS. \<open>faultHolds\<close> says what each reported fault means on
  the stripped cells.
\<close>

definition rowInvalid :: "string list \<Rightarrow> bool" where
  "rowInvalid row =
     (let cells = map stripQuotes row
      in [] \<in> set cells
         \<or> \<not> startsWith (cells ! 1) ''https://''
         \<or> includesStr (cells ! 1) ''data:image''
         \<or> includesStr (cells ! 1) ''blob:''
         \<or> \<not> startsWith (cells ! 4) ''https://'')"

fun faultHolds :: "RowFault \<Rightarrow> string list \<Rightarrow> bool" where
  "faultHolds TitleEmpty cells = (cells ! 0 = [])"
| "faultHolds (MediaUrlNotPublic current) cells =
     (current = take 30 (cells ! 1) \<and>
      (cells ! 1 = [] \<or> \<not> startsWith (cells ! 1) ''https://''
       \<or> includesStr (cells ! 1) ''data:image'' \<or> includesStr (cells ! 1) ''blob:''))"
| "faultHolds BoardEmpty cells = (cells ! 2 = [])"
| "faultHolds DescriptionEmpty cells = (cells ! 3 = [])"
| "faultHolds LinkNotHttps cells = (cells ! 4 = [] \<or> \<not> startsWith (cells ! 4) ''https://'')"
| "faultHolds DateEmpty cells = (cells ! 5 = [])"
| "faultHolds KeywordsEmpty cells = (cells ! 6 = [])"

text \<open>The rows of a projection that succeeds.\<close>

definition rowsOf :: "CampaignResult list \<Rightarrow> string list list" where
  "rowsOf data = (case projectRows data of Inl e \<Rightarrow> [] | Inr rows \<Rightarrow> rows)"

text \<open>
  The serialization in the words of the specification: the header line, then one line
  per (source, variation) pair in input order, every one of the seven fields wrapped in
  double quotes with its internal double quotes doubled.
\<close>

definition specRow :: "CampaignResult \<Rightarrow> PinVariation \<Rightarrow> string list" where
  "specRow r v =
     map (\<lambda>s. quoted (escapeQuotes s))
       [title v,
        (case publicMediaUrl v of None \<Rightarrow> [] | Some m \<Rightarrow> m),
        (case suggestedBoards v of [] \<Rightarrow> [] | b # _ \<Rightarrow> b),
        description v,
        sourceUrl r,
        (case scheduledDate v of None \<Rightarrow> [] | Some d \<Rightarrow> d),
        join (keywords v) '', '']"

definition specCSV :: "CampaignResult list \<Rightarrow> string" where
  "specCSV data =
     join (''Title,Media URL,Pinterest board,Description,Link,Publish date,Keywords''
             # map (\<lambda>p. join (specRow (fst p) (snd p)) '','') (pairs data)) [newline]"

text \<open>No double quote in the three fields the source does not escape.\<close>

definition unescapedFieldsQuoteFree :: "CampaignResult \<times> PinVariation \<Rightarrow> bool" where
  "unescapedFieldsQuoteFree p =
     (dquote \<notin> set (sourceUrl (fst p))
      \<and> dquote \<notin> set (case publicMediaUrl (snd p) of None \<Rightarrow> [] | Some m \<Rightarrow> m)
      \<and> dquote \<notin> set (case scheduledDate (snd p) of None \<Rightarrow> [] | Some d \<Rightarrow> d))"

subsection \<open>Concrete values for the closed instances\<close>

definition sampleAnalysis :: UrlAnalysis where
  "sampleAnalysis =
     \<lparr>topic = ''gardening'', coreContent = ''raised beds'', primaryKeyword = ''garden'',
      secondaryKeywords = [''soil''], searchIntent = ''learn'', mainBenefits = [''yield''],
      targetAudience = ''beginners'', visualAngleOpportunities = ''overhead''\<rparr>"

definition samplePin :: "string \<Rightarrow> PinVariation" where
  "samplePin t =
     \<lparr>title = t, description = ''How to build it'', altText = ''a bed'',
      suggestedBoards = [''Garden ideas''], keywords = [''garden'', ''diy''],
      strategy = \<lparr>seoAngle = ''how-to'', emotionalTrigger = ''pride'', headlineStyle = ''list'',
                  visualStyle = ''bright'', targetUserLevel = Beginner,
                  intentType = Informational\<rparr>,
      visualStrategy = \<lparr>styleType = Lifestyle,
                        compositionParams = \<lparr>cameraAngle = ''top'', distance = Medium,
                                              lighting = Warm\<rparr>,
                        textOverlay = ''Build it'', supportingText = None,
                        imagePrompt = ''a raised bed'', colorPalette = [''green'']\<rparr>,
      performanceIntelligence = \<lparr>viralHook = ''easy'', ctrBooster = ''numbers'',
                                  distributionVelocity = ''steady''\<rparr>,
      experimentationLayer = \<lparr>hypothesis = ''lists win'', testMetric = ''ctr'',
                               winnerAction = ''repeat''\<rparr>,
      authorityLayer = \<lparr>nicheDominance = ''local'', trustSignal = ''photos'',
                         stabilityStrategy = ''weekly''\<rparr>,
      scheduledDate = Some ''2024-01-01 09:00'',
      generatedImageUrl = Some ''data:image/png;base64,AAAA'',
      publicMediaUrl = Some ''https://cdn.pinflow-pro.ai/v2/pin_1.png''\<rparr>"

definition sampleSource :: "string \<Rightarrow> PinVariation list \<Rightarrow> CampaignResult" where
  "sampleSource u vs = \<lparr>sourceUrl = u, analysis = sampleAnalysis, variations = vs\<rparr>"

text \<open>An engine that recognises no date string outside the ECMAScript format.\<close>

definition noFallback :: "string \<Rightarrow> Date" where
  "noFallback s = None"

definition sampleSettings :: "number \<Rightarrow> AppSettings" where
  "sampleSettings n = \<lparr>pinsPerDay = n, startDate = ''2024-01-01'', variationsPerUrl = Num 3\<rparr>"

definition dataUriPin :: PinVariation where
  "dataUriPin = (samplePin ''Second pin'')\<lparr>publicMediaUrl := Some ''data:image/png;base64,AAAA''\<rparr>"

definition boardlessPin :: PinVariation where
  "boardlessPin = (samplePin ''First pin'')\<lparr>suggestedBoards := []\<rparr>"

definition emptyBoardPin :: PinVariation where
  "emptyBoardPin = (samplePin ''Second pin'')\<lparr>suggestedBoards := [[], ''Garden ideas'']\<rparr>"

definition twoSourcesFivePins :: "CampaignResult list" where
  "twoSourcesFivePins =
     [sampleSource ''https://a.example'' [samplePin ''A1'', samplePin ''A2'', samplePin ''A3''],
      sampleSource ''https://b.example'' [samplePin ''B1'', samplePin ''B2'']]"

definition oneSourceThreePins :: "CampaignResult list" where
  "oneSourceThreePins =
     [sampleSource ''https://a.example'' [samplePin ''A1'', samplePin ''A2'', samplePin ''A3'']]"

definition quoteInLink :: "CampaignResult list" where
  "quoteInLink =
     [sampleSource (''https://a.example/'' @ [dquote] @ ''x'')
        [samplePin ''A1'', samplePin ''A2'', samplePin ''A3'']]"

definition emptyDescription :: "CampaignResult list" where
  "emptyDescription =
     [sampleSource ''https://a.example''
        [samplePin ''A1'', samplePin ''A2'', (samplePin ''A3'')\<lparr>description := []\<rparr>]]"




definition twoPinsOneBad :: "CampaignResult list" where
  "twoPinsOneBad =
     [sampleSource ''https://a.example''
        [samplePin ''A1'', (samplePin ''A2'')\<lparr>description := []\<rparr>]]"

section \<open>The scheduler computes a single pass\<close>

lemma length_stampVariations [simp]: "length (stampVariations f k xs) = length xs"
  by (induction xs arbitrary: k) simp_all

lemma map_enumerate_stamp:
  "(\<And>v. v < length xs \<Longrightarrow> g (j + v) = f (k + v)) \<Longrightarrow>
   map (\<lambda>(v, x). x\<lparr>scheduledDate := Some (g v)\<rparr>) (enumerate j xs) = stampVariations f k xs"
proof (induction xs arbitrary: j k)
  case Nil
  then show ?case by simp
next
  case (Cons x xs)
  have h0: "g j = f k" using Cons.prems [of 0] by simp
  have "\<And>v. v < length xs \<Longrightarrow> g (Suc j + v) = f (Suc k + v)"
    using Cons.prems [of "Suc v" for v] by simp
  then have "map (\<lambda>(v, x). x\<lparr>scheduledDate := Some (g v)\<rparr>) (enumerate (Suc j) xs)
      = stampVariations f (Suc k) xs"
    by (rule Cons.IH)
  then show ?case using h0 by simp
qed

lemma flattenFrom_Cons:
  "flattenFrom u0 (r # rs) =
     map (\<lambda>(v, x). \<lparr>url = sourceUrl r, variation = x, uIdx = u0, vIdx = v\<rparr>)
       (enumerate 0 (variations r)) @ flattenFrom (Suc u0) rs"
  by (simp add: flattenFrom_def)

lemma scheduledFrom_append:
  "scheduledFrom f k (xs @ ys) = scheduledFrom f k xs @ scheduledFrom f (k + length xs) ys"
  by (simp add: scheduledFrom_def enumerate_append_eq)

lemma remapFrom_Cons:
  "remapFrom S u0 (r # rs) =
     r\<lparr>variations :=
          map (\<lambda>(v, x).
             x\<lparr>scheduledDate :=
                 Some (case find (\<lambda>s. uIdx s = u0 \<and> vIdx s = v) S of
                         Some scheduled \<Rightarrow> dateStr scheduled
                       | None \<Rightarrow> [])\<rparr>)
            (enumerate 0 (variations r))\<rparr> # remapFrom S (Suc u0) rs"
  by (simp add: remapFrom_def)

lemma find_append_split:
  "find P (xs @ ys) = (case find P xs of None \<Rightarrow> find P ys | Some x \<Rightarrow> Some x)"
  by (induction xs) simp_all

lemma length_scheduledRow [simp]: "length (scheduledRow f k u0 r) = length (variations r)"
  by (simp add: scheduledRow_def scheduledFrom_def)

lemma nth_scheduledRow:
  "j < length (variations r) \<Longrightarrow>
   scheduledRow f k u0 r ! j =
     \<lparr>url = sourceUrl r, variation = variations r ! j, uIdx = u0, vIdx = j, dateStr = f (k + j)\<rparr>"
  by (simp add: scheduledRow_def scheduledFrom_def nth_enumerate_eq)

lemma uIdx_scheduledRow: "s \<in> set (scheduledRow f k u0 r) \<Longrightarrow> uIdx s = u0"
  by (auto simp: in_set_conv_nth nth_scheduledRow)

lemma find_scheduledRow:
  assumes "v < length (variations r)"
  shows "find (\<lambda>s. uIdx s = u0 \<and> vIdx s = v) (scheduledRow f k u0 r) = Some (scheduledRow f k u0 r ! v)"
  unfolding find_Some_iff
  using assms by (intro exI [of _ v]) (simp add: nth_scheduledRow)

lemma lookup_scheduled:
  assumes pre: "\<And>s. s \<in> set pre \<Longrightarrow> uIdx s < u0" and v: "v < length (variations r)"
  shows "(case find (\<lambda>s. uIdx s = u0 \<and> vIdx s = v) (pre @ scheduledRow f k u0 r @ rest) of
            Some scheduled \<Rightarrow> dateStr scheduled | None \<Rightarrow> []) = f (k + v)"
proof -
  have "find (\<lambda>s. uIdx s = u0 \<and> vIdx s = v) pre = None"
    using pre by (fastforce simp: find_None_iff)
  then show ?thesis
    using v by (simp add: find_append_split find_scheduledRow nth_scheduledRow)
qed

lemma remapFrom_stamp:
  assumes "\<And>s. s \<in> set pre \<Longrightarrow> uIdx s < u0"
  shows "remapFrom (pre @ scheduledFrom f k (flattenFrom u0 rs)) u0 rs = stampFrom f k rs"
  using assms
proof (induction rs arbitrary: pre u0 k)
  case Nil
  then show ?case by (simp add: remapFrom_def)
next
  case (Cons r rs)
  let ?row = "scheduledRow f k u0 r"
  let ?rest = "scheduledFrom f (k + length (variations r)) (flattenFrom (Suc u0) rs)"
  have S: "pre @ scheduledFrom f k (flattenFrom u0 (r # rs)) = pre @ ?row @ ?rest"
    by (simp add: flattenFrom_Cons scheduledFrom_append scheduledRow_def)
  have head: "map (\<lambda>(v, x).
             x\<lparr>scheduledDate :=
                 Some (case find (\<lambda>s. uIdx s = u0 \<and> vIdx s = v) (pre @ ?row @ ?rest) of
                         Some scheduled \<Rightarrow> dateStr scheduled
                       | None \<Rightarrow> [])\<rparr>)
            (enumerate 0 (variations r)) = stampVariations f k (variations r)"
    by (rule map_enumerate_stamp) (simp add: lookup_scheduled Cons.prems)
  have "\<And>s. s \<in> set (pre @ ?row) \<Longrightarrow> uIdx s < Suc u0"
    using Cons.prems by (auto dest: uIdx_scheduledRow less_SucI)
  then have "remapFrom ((pre @ ?row) @ ?rest) (Suc u0) rs
      = stampFrom f (k + length (variations r)) rs"
    by (rule Cons.IH)
  then show ?case
    unfolding S by (simp add: remapFrom_Cons head)
qed

lemma scheduleCampaign_stamp:
  "scheduleCampaign fp tza results settings =
     stampFrom (slotDateStr tza (parseDate fp (startDate settings))
                  (effectivePinsPerDay (pinsPerDay settings))) 0 results"
  using remapFrom_stamp [of "[]" 0 _ 0 results]
  by (simp add: scheduleCampaign_def flattenedPins_def)

lemma stampVariations_idem:
  "stampVariations g k (stampVariations f k xs) = stampVariations g k xs"
  by (induction xs arbitrary: k) simp_all

lemma stampFrom_idem: "stampFrom g k (stampFrom f k rs) = stampFrom g k rs"
  by (induction rs arbitrary: k) (simp_all add: stampVariations_idem)

lemma clear_stampVariations:
  "map (\<lambda>x. x\<lparr>scheduledDate := None\<rparr>) (stampVariations f k xs) = map (\<lambda>x. x\<lparr>scheduledDate := None\<rparr>) xs"
  by (induction xs arbitrary: k) simp_all

lemma clearDates_stampFrom: "clearDates (stampFrom f k rs) = clearDates rs"
  by (induction rs arbitrary: k) (simp_all add: clearDates_def clear_stampVariations)

section \<open>Time slots within a day\<close>

lemma pinIndexInDay_range:
  assumes "1 \<le> perDay"
  shows "0 \<le> pinIndexInDay perDay i \<and> pinIndexInDay perDay i < perDay"
  using assms by (simp add: pinIndexInDay_def)

lemma div_less_bound:
  fixes a b c :: int
  assumes "0 < c" "a < b * c"
  shows "a div c < b"
proof (rule ccontr)
  assume "\<not> a div c < b"
  then have "b \<le> a div c" by simp
  then have le: "b * c \<le> (a div c) * c" using assms(1) by (simp add: mult_right_mono)
  have m: "0 \<le> a mod c" using assms(1) by simp
  have e: "a = (a div c) * c + a mod c" by simp
  show False using le m e assms(2) by linarith
qed

lemma hour_range:
  assumes "1 \<le> perDay"
  shows "9 \<le> slotHour perDay i \<and> slotHour perDay i < 21"
proof -
  let ?s = "pinIndexInDay perDay i"
  have s: "0 \<le> ?s" "?s < perDay" using pinIndexInDay_range [OF assms] by simp_all
  have pos: "0 < perDay" using assms by simp
  have "0 \<le> (?s * 12) div perDay"
    using s(1) pos by (simp add: pos_imp_zdiv_nonneg_iff)
  moreover have "?s * 12 < 12 * perDay" using s(2) by simp
  then have "(?s * 12) div perDay < 12" using pos by (rule div_less_bound [rotated])
  ultimately show ?thesis by (simp add: slotHour_def)
qed





section \<open>Shape, frame and idempotence of the scheduler\<close>

lemma length_stampFrom [simp]: "length (stampFrom f k rs) = length rs"
  by (induction rs arbitrary: k) simp_all

lemma map_sourceUrl_stampFrom: "map sourceUrl (stampFrom f k rs) = map sourceUrl rs"
  by (induction rs arbitrary: k) simp_all

lemma map_analysis_stampFrom: "map analysis (stampFrom f k rs) = map analysis rs"
  by (induction rs arbitrary: k) simp_all

lemma map_length_variations_stampFrom:
  "map (\<lambda>r. length (variations r)) (stampFrom f k rs) = map (\<lambda>r. length (variations r)) rs"
  by (induction rs arbitrary: k) simp_all

text \<open>
  Claim C7. The result of \<open>scheduleCampaign\<close> has the shape of its input: the same
  number of sources in the same order, each with the same number of variations in the
  same order. Erasing \<open>scheduledDate\<close> everywhere (\<open>clearDates\<close>) makes output and
  input equal, so every other field of every source and variation is unchanged. The
  empty list gives the empty list, and a source without variations is returned as it
  is. The model is a function on values: the input is not changed, as in the source,
  which builds new arrays and objects with \<^verbatim>\<open>map\<close> and the spread operator.
\<close>

theorem scheduleCampaign_preserves_shape_and_fields:
  "clearDates (scheduleCampaign fp tza results settings) = clearDates results \<and>
   length (scheduleCampaign fp tza results settings) = length results \<and>
   map (\<lambda>r. length (variations r)) (scheduleCampaign fp tza results settings)
     = map (\<lambda>r. length (variations r)) results \<and>
   map sourceUrl (scheduleCampaign fp tza results settings) = map sourceUrl results \<and>
   map analysis (scheduleCampaign fp tza results settings) = map analysis results \<and>
   scheduleCampaign fp tza [] settings = [] \<and>
   scheduleCampaign fp tza [\<lparr>sourceUrl = u, analysis = a, variations = []\<rparr>] settings
     = [\<lparr>sourceUrl = u, analysis = a, variations = []\<rparr>]"
  by (simp add: scheduleCampaign_stamp clearDates_stampFrom map_sourceUrl_stampFrom
      map_analysis_stampFrom map_length_variations_stampFrom)

text \<open>
  Claim C8. Scheduling a scheduled result again with the same settings changes nothing.
  More generally a second run replaces the dates of the first: it gives what the second
  settings give on the original input. The result is a function of the runtime (its
  time zone and its reading of date strings), the results and the settings alone (no
  clock, no random number is read), so equal inputs give equal outputs.
\<close>

theorem scheduleCampaign_idempotent:
  "scheduleCampaign fp tza (scheduleCampaign fp tza results settings) settings
     = scheduleCampaign fp tza results settings \<and>
   scheduleCampaign fp tza (scheduleCampaign fp tza results settings) settings'
     = scheduleCampaign fp tza results settings'"
  by (simp add: scheduleCampaign_stamp stampFrom_idem)

section \<open>The effective number of pins per day\<close>

lemma slotDateStr_UTC_perDay3:
  "slotDateStr 0 (parseDate fp ''2024-01-01'') 3 0 = ''2024-01-01 09:00''"
  "slotDateStr 0 (parseDate fp ''2024-01-01'') 3 (Suc 0) = ''2024-01-01 13:17''"
  "slotDateStr 0 (parseDate fp ''2024-01-01'') 3 (Suc (Suc 0)) = ''2024-01-01 17:34''"
  by code_simp+

lemma slotDateStr_UTC_perDay1:
  "slotDateStr 0 (parseDate fp ''2024-01-01'') 1 0 = ''2024-01-01 09:00''"
  "slotDateStr 0 (parseDate fp ''2024-01-01'') 1 (Suc 0) = ''2024-01-02 09:00''"
  by code_simp+

lemma slotDateStr_west_perDay3:
  "slotDateStr (- 18000000) (parseDate fp ''2024-01-01'') 3 0 = ''2023-12-31 09:00''"
  "slotDateStr (- 18000000) (parseDate fp ''2024-01-01'') 3 (Suc 0) = ''2023-12-31 13:17''"
  "slotDateStr (- 18000000) (parseDate fp ''2024-01-01'') 3 (Suc (Suc 0)) = ''2023-12-31 17:34''"
  by code_simp+

lemma scheduleCampaign_effective:
  "effectivePinsPerDay (pinsPerDay settings) = effectivePinsPerDay (pinsPerDay settings') \<Longrightarrow>
   startDate settings = startDate settings' \<Longrightarrow>
   scheduleCampaign fp tza results settings = scheduleCampaign fp tza results settings'"
  by (simp add: scheduleCampaign_stamp)

text \<open>
  Claim C6, as amended. A raw \<^verbatim>\<open>pinsPerDay\<close> that is \<^verbatim>\<open>NaN\<close> or 0 is scheduled as
  3 per day; a negative raw value is scheduled as 1 per day (it is truthy, so the default
  is not taken, and \<^verbatim>\<open>Math.max\<close> lifts it to 1); a value of at least 1 is used as it
  is.
\<close>

theorem pinsPerDay_default_and_clamp:
  "scheduleCampaign fp tza results (settings\<lparr>pinsPerDay := NaN\<rparr>)
     = scheduleCampaign fp tza results (settings\<lparr>pinsPerDay := Num 3\<rparr>) \<and>
   scheduleCampaign fp tza results (settings\<lparr>pinsPerDay := Num 0\<rparr>)
     = scheduleCampaign fp tza results (settings\<lparr>pinsPerDay := Num 3\<rparr>) \<and>
   (n < 0 \<longrightarrow> scheduleCampaign fp tza results (settings\<lparr>pinsPerDay := Num n\<rparr>)
     = scheduleCampaign fp tza results (settings\<lparr>pinsPerDay := Num 1\<rparr>)) \<and>
   (1 \<le> n \<longrightarrow> effectivePinsPerDay (Num n) = n)"
  by (auto intro!: scheduleCampaign_effective simp: effectivePinsPerDay_def)

text \<open>
  Claim C6 as stated fails: with the raw value \<open>-5\<close> two pins are placed on two
  consecutive days at 09:00 (one per day), while with 3 per day both are placed on the
  first day, at 09:00 and 13:17.
\<close>

theorem negative_pinsPerDay_counterexample:
  "scheduleCampaign noFallback 0 [sampleSource ''https://a.example'' [samplePin ''one'', samplePin ''two'']]
      (sampleSettings (Num (- 5)))
   \<noteq> scheduleCampaign noFallback 0 [sampleSource ''https://a.example'' [samplePin ''one'', samplePin ''two'']]
      (sampleSettings (Num 3))"
  by (simp add: scheduleCampaign_stamp sampleSource_def sampleSettings_def
      effectivePinsPerDay_def slotDateStr_UTC_perDay3 slotDateStr_UTC_perDay1 samplePin_def)

theorem pinsPerDay_default_and_clamp_witness:
  "(- 5 :: int) < 0 \<and> (1::int) \<le> 4 \<and>
   scheduleCampaign noFallback 0 [sampleSource ''https://a.example'' [samplePin ''one'', samplePin ''two'']]
      (sampleSettings (Num (- 5)))
     = scheduleCampaign noFallback 0 [sampleSource ''https://a.example'' [samplePin ''one'', samplePin ''two'']]
      (sampleSettings (Num 1)) \<and>
   effectivePinsPerDay (Num 4) = 4"
  using pinsPerDay_default_and_clamp
    [of noFallback 0 "[sampleSource ''https://a.example'' [samplePin ''one'', samplePin ''two'']]"
        "sampleSettings (Num 3)" "- 5"]
    pinsPerDay_default_and_clamp [of noFallback 0 "[]" "sampleSettings (Num 3)" 4]
  by (simp add: sampleSettings_def)

section \<open>Local time of a scheduled date\<close>

lemma Day_of_local:
  assumes "0 \<le> r" and "r < msPerDay"
  shows "Day (D * msPerDay + r) = D"
proof -
  have "D * msPerDay + r = msPerDay * D + r" by simp
  then show ?thesis unfolding Day_def using assms by (rule int_div_pos_eq)
qed

lemma TimeWithinDay_range: "0 \<le> TimeWithinDay t \<and> TimeWithinDay t < msPerDay"
  by (simp add: TimeWithinDay_def msPerDay_def)

lemma Day_TimeWithinDay: "t = Day t * msPerDay + TimeWithinDay t"
  by (simp add: Day_def TimeWithinDay_def)

lemma time_of_day_range:
  assumes "0 \<le> h" "h < 24" "0 \<le> mi" "mi < 60"
  shows "0 \<le> h * msPerHour + mi * msPerMinute \<and> h * msPerHour + mi * msPerMinute < msPerDay"
  using assms by (simp add: msPerHour_def msPerMinute_def msPerDay_def)

lemma HourFromTime_local:
  assumes "0 \<le> h" "h < 24" "0 \<le> mi" "mi < 60"
  shows "HourFromTime (D * msPerDay + h * msPerHour + mi * msPerMinute) = h"
proof -
  have "D * msPerDay + h * msPerHour + mi * msPerMinute
      = msPerHour * (D * 24 + h) + mi * msPerMinute"
    by (simp add: msPerDay_def msPerHour_def algebra_simps)
  moreover have "0 \<le> mi * msPerMinute" "mi * msPerMinute < msPerHour"
    using assms by (simp_all add: msPerMinute_def msPerHour_def)
  ultimately have "(D * msPerDay + h * msPerHour + mi * msPerMinute) div msPerHour = D * 24 + h"
    by (rule int_div_pos_eq)
  then show ?thesis using assms by (simp add: HourFromTime_def)
qed

lemma MinFromTime_local:
  assumes "0 \<le> mi" "mi < 60"
  shows "MinFromTime (D * msPerDay + h * msPerHour + mi * msPerMinute) = mi"
proof -
  have "D * msPerDay + h * msPerHour + mi * msPerMinute
      = msPerMinute * (D * 1440 + h * 60 + mi) + 0"
    by (simp add: msPerDay_def msPerHour_def msPerMinute_def algebra_simps)
  moreover have "(0::int) \<le> 0" "0 < msPerMinute" by (simp_all add: msPerMinute_def)
  ultimately have "(D * msPerDay + h * msPerHour + mi * msPerMinute) div msPerMinute
      = D * 1440 + h * 60 + mi"
    by (rule int_div_pos_eq)
  moreover have "(D * 1440 + h * 60 + mi) mod 60 = mi"
  proof -
    have "D * 1440 + h * 60 + mi = 60 * (D * 24 + h) + mi" by simp
    then show ?thesis using assms by (rule int_mod_pos_eq)
  qed
  ultimately show ?thesis by (simp add: MinFromTime_def)
qed

text \<open>
  The date object after \<^verbatim>\<open>setDate\<close> and \<^verbatim>\<open>setHours\<close>: in local time it is day
  \<open>D\<close>, the day the calendar gives for the local start day plus the offset, at
  \<open>h\<close>:\<open>mi\<close>, as long as the time values stay in the range of \<^verbatim>\<open>TimeClip\<close>.
\<close>

lemma scheduled_time_value:
  assumes start: "start = Some T"
    and civil: "civilFromDays (Day (LocalTime tza T)) = (y0, m0, d0)"
    and D: "D = MakeDay y0 (m0 - 1) (d0 + off)"
    and h: "0 \<le> h" "h < 24" and mi: "0 \<le> mi" "mi < 60"
    and clip1: "\<bar>D * msPerDay + TimeWithinDay (LocalTime tza T) - tza\<bar> \<le> 8640000000000000"
    and clip2: "\<bar>D * msPerDay + h * msPerHour + mi * msPerMinute - tza\<bar> \<le> 8640000000000000"
  shows "setHours tza (setDate tza start (map_option (\<lambda>d. d + off) (getDate tza start))) h mi 0 0
         = Some (D * msPerDay + h * msPerHour + mi * msPerMinute - tza)"
proof -
  let ?r = "TimeWithinDay (LocalTime tza T)"
  have "setDate tza start (map_option (\<lambda>d. d + off) (getDate tza start))
      = Some (D * msPerDay + ?r - tza)"
    using clip1
    by (simp add: start setDate_def getDate_def DateFromTime_def YearFromTime_def
        MonthFromTime_def civil D MakeDate_def UTC_def TimeClip_def Let_def)
  moreover have "Day (LocalTime tza (D * msPerDay + ?r - tza)) = D"
    using Day_of_local [of ?r D] TimeWithinDay_range [of "LocalTime tza T"]
    by (simp add: LocalTime_def)
  ultimately show ?thesis
    using clip2
    by (simp add: setHours_def Let_def MakeDate_def MakeTime_def UTC_def TimeClip_def)
qed

lemma local_fields:
  assumes "0 \<le> h" "h < 24" "0 \<le> mi" "mi < 60"
    and "date = Some (D * msPerDay + h * msPerHour + mi * msPerMinute - tza)"
    and "civilFromDays D = (y, m, d)"
  shows "getFullYear tza date = Some y" "getMonth tza date = Some (m - 1)"
    "getDate tza date = Some d" "getHours tza date = Some h" "getMinutes tza date = Some mi"
proof -
  have l: "LocalTime tza (D * msPerDay + h * msPerHour + mi * msPerMinute - tza)
      = D * msPerDay + h * msPerHour + mi * msPerMinute"
    by (simp add: LocalTime_def)
  have "Day (D * msPerDay + (h * msPerHour + mi * msPerMinute)) = D"
    using time_of_day_range [OF assms(1-4)] by (intro Day_of_local) simp_all
  then have day: "Day (D * msPerDay + h * msPerHour + mi * msPerMinute) = D"
    by (simp add: add.assoc)
  show "getFullYear tza date = Some y" "getMonth tza date = Some (m - 1)"
    "getDate tza date = Some d"
    using assms(5,6) day
    by (simp_all add: getFullYear_def getMonth_def getDate_def l YearFromTime_def
        MonthFromTime_def DateFromTime_def)
  show "getHours tza date = Some h"
    using assms(5) HourFromTime_local [OF assms(1-4), of D] by (simp add: getHours_def l)
  show "getMinutes tza date = Some mi"
    using assms(5) MinFromTime_local [OF assms(3,4), of D h] by (simp add: getMinutes_def l)
qed


lemma slotMinute_range: "0 \<le> slotMinute perDay index \<and> slotMinute perDay index < 60"
  by (simp add: slotMinute_def)

lemma slotDateStr_local_day:
  assumes start: "start = Some T"
    and civil0: "civilFromDays (Day (LocalTime tza T)) = (y0, m0, d0)"
    and perDay: "1 \<le> perDay"
    and D: "D = MakeDay y0 (m0 - 1) (d0 + dayOffset perDay index)"
    and civil: "civilFromDays D = (y, m, d)"
    and clip1: "\<bar>D * msPerDay + TimeWithinDay (LocalTime tza T) - tza\<bar> \<le> 8640000000000000"
    and clip2: "\<bar>D * msPerDay + slotHour perDay index * msPerHour
                  + slotMinute perDay index * msPerMinute - tza\<bar> \<le> 8640000000000000"
  shows "slotDateStr tza start perDay index =
           String y @ ''-'' @ padStart (String m) 2 @ ''-'' @ padStart (String d) 2 @ '' ''
           @ padStart (String (slotHour perDay index)) 2 @ '':''
           @ padStart (String (slotMinute perDay index)) 2"
proof -
  let ?h = "slotHour perDay index" and ?mi = "slotMinute perDay index"
  have h: "0 \<le> ?h" "?h < 24" using hour_range [OF perDay, of index] by simp_all
  have mi: "0 \<le> ?mi" "?mi < 60" using slotMinute_range [of perDay index] by simp_all
  let ?date = "setHours tza (setDate tza start
      (map_option (\<lambda>d. d + dayOffset perDay index) (getDate tza start))) ?h ?mi 0 0"
  have date: "?date = Some (D * msPerDay + ?h * msPerHour + ?mi * msPerMinute - tza)"
    using start civil0 D h mi clip1 clip2 by (rule scheduled_time_value)
  note f = local_fields [OF h mi date civil]
  show ?thesis
    unfolding slotDateStr_def Let_def f by (simp add: pad_def StringOpt_def)
qed

text \<open>
  The end-to-end scenario in every time zone of constant offset: at or east of UTC
  (offset from 0 up to 24 hours) the dates are on the start date, west of UTC (offset
  down to minus 24 hours) they are on the day before.
\<close>

lemma scenario_strings:
  "String 2024 = ''2024''" "String 2023 = ''2023''" "String 12 = ''12''" "String 31 = ''31''"
  "String 1 = ''1''" "String 9 = ''9''" "String 0 = ''0''" "String 13 = ''13''"
  "String 17 = ''17''" "String 34 = ''34''"
  by code_simp+

lemma scenario_slots:
  "dayOffset 3 0 = 0" "dayOffset 3 (Suc 0) = 0" "dayOffset 3 (Suc (Suc 0)) = 0"
  "slotHour 3 0 = 9" "slotHour 3 (Suc 0) = 13" "slotHour 3 (Suc (Suc 0)) = 17"
  "slotMinute 3 0 = 0" "slotMinute 3 (Suc 0) = 17" "slotMinute 3 (Suc (Suc 0)) = 34"
  by (simp_all add: dayOffset_def slotHour_def slotMinute_def pinIndexInDay_def)

lemma scenario_calendar:
  "parseDate fp ''2024-01-01'' = Some 1704067200000"
  "civilFromDays 19723 = (2024, 1, 1)" "civilFromDays 19722 = (2023, 12, 31)"
  "MakeDay 2024 0 1 = 19723" "MakeDay 2023 11 31 = 19722"
  by code_simp+

lemma scenario_start_east:
  fixes tza :: int
  assumes "0 \<le> tza" "tza < 86400000"
  shows "Day (LocalTime tza 1704067200000) = 19723"
    and "TimeWithinDay (LocalTime tza 1704067200000) = tza"
proof -
  have e: "1704067200000 + tza = 86400000 * 19723 + tza" by simp
  show "Day (LocalTime tza 1704067200000) = 19723"
    unfolding Day_def LocalTime_def msPerDay_def using e assms by (rule int_div_pos_eq)
  show "TimeWithinDay (LocalTime tza 1704067200000) = tza"
    unfolding TimeWithinDay_def LocalTime_def msPerDay_def using e assms by (rule int_mod_pos_eq)
qed

lemma scenario_start_west:
  fixes tza :: int
  assumes "- 86400000 \<le> tza" "tza < 0"
  shows "Day (LocalTime tza 1704067200000) = 19722"
    and "TimeWithinDay (LocalTime tza 1704067200000) = 86400000 + tza"
proof -
  have e: "1704067200000 + tza = 86400000 * 19722 + (86400000 + tza)" by simp
  have r: "0 \<le> 86400000 + tza" "86400000 + tza < 86400000" using assms by simp_all
  show "Day (LocalTime tza 1704067200000) = 19722"
    unfolding Day_def LocalTime_def msPerDay_def using e r by (rule int_div_pos_eq)
  show "TimeWithinDay (LocalTime tza 1704067200000) = 86400000 + tza"
    unfolding TimeWithinDay_def LocalTime_def msPerDay_def using e r by (rule int_mod_pos_eq)
qed

lemma slotDateStr_scenario_east:
  fixes tza :: int
  assumes "0 \<le> tza" "tza < 86400000"
  shows "slotDateStr tza (parseDate fp ''2024-01-01'') 3 0 = ''2024-01-01 09:00''"
    and "slotDateStr tza (parseDate fp ''2024-01-01'') 3 (Suc 0) = ''2024-01-01 13:17''"
    and "slotDateStr tza (parseDate fp ''2024-01-01'') 3 (Suc (Suc 0)) = ''2024-01-01 17:34''"
proof -
  have s: "slotDateStr tza (parseDate fp ''2024-01-01'') 3 index =
           String 2024 @ ''-'' @ padStart (String 1) 2 @ ''-'' @ padStart (String 1) 2 @ '' ''
           @ padStart (String (slotHour 3 index)) 2 @ '':''
           @ padStart (String (slotMinute 3 index)) 2"
    if "dayOffset 3 index = 0" "0 \<le> slotHour 3 index" "slotHour 3 index < 24"
      "0 \<le> slotMinute 3 index" "slotMinute 3 index < 60" for index
  proof (rule slotDateStr_local_day [where T = 1704067200000 and D = 19723
        and ?y0.0 = 2024 and ?m0.0 = 1 and ?d0.0 = 1])
    show "parseDate fp ''2024-01-01'' = Some 1704067200000" by (rule scenario_calendar)
    show "civilFromDays (Day (LocalTime tza 1704067200000)) = (2024, 1, 1)"
      using scenario_start_east [OF assms] scenario_calendar by simp
    show "(1::int) \<le> 3" by simp
    show "19723 = MakeDay 2024 (1 - 1) (1 + dayOffset 3 index)"
      using that(1) scenario_calendar by simp
    show "civilFromDays 19723 = (2024, 1, 1)" by (rule scenario_calendar)
    show "\<bar>19723 * msPerDay + TimeWithinDay (LocalTime tza 1704067200000) - tza\<bar>
        \<le> 8640000000000000"
      using scenario_start_east [OF assms] by (simp add: msPerDay_def)
    show "\<bar>19723 * msPerDay + slotHour 3 index * msPerHour + slotMinute 3 index * msPerMinute
           - tza\<bar> \<le> 8640000000000000"
      using that assms by (simp add: msPerDay_def msPerHour_def msPerMinute_def)
  qed
  show "slotDateStr tza (parseDate fp ''2024-01-01'') 3 0 = ''2024-01-01 09:00''"
    using s [of 0] by (simp add: scenario_slots scenario_strings padStart_def)
  show "slotDateStr tza (parseDate fp ''2024-01-01'') 3 (Suc 0) = ''2024-01-01 13:17''"
    using s [of "Suc 0"] by (simp add: scenario_slots scenario_strings padStart_def)
  show "slotDateStr tza (parseDate fp ''2024-01-01'') 3 (Suc (Suc 0)) = ''2024-01-01 17:34''"
    using s [of "Suc (Suc 0)"] by (simp add: scenario_slots scenario_strings padStart_def)
qed

lemma slotDateStr_scenario_west:
  fixes tza :: int
  assumes "- 86400000 \<le> tza" "tza < 0"
  shows "slotDateStr tza (parseDate fp ''2024-01-01'') 3 0 = ''2023-12-31 09:00''"
    and "slotDateStr tza (parseDate fp ''2024-01-01'') 3 (Suc 0) = ''2023-12-31 13:17''"
    and "slotDateStr tza (parseDate fp ''2024-01-01'') 3 (Suc (Suc 0)) = ''2023-12-31 17:34''"
proof -
  have s: "slotDateStr tza (parseDate fp ''2024-01-01'') 3 index =
           String 2023 @ ''-'' @ padStart (String 12) 2 @ ''-'' @ padStart (String 31) 2 @ '' ''
           @ padStart (String (slotHour 3 index)) 2 @ '':''
           @ padStart (String (slotMinute 3 index)) 2"
    if "dayOffset 3 index = 0" "0 \<le> slotHour 3 index" "slotHour 3 index < 24"
      "0 \<le> slotMinute 3 index" "slotMinute 3 index < 60" for index
  proof (rule slotDateStr_local_day [where T = 1704067200000 and D = 19722
        and ?y0.0 = 2023 and ?m0.0 = 12 and ?d0.0 = 31])
    show "parseDate fp ''2024-01-01'' = Some 1704067200000" by (rule scenario_calendar)
    show "civilFromDays (Day (LocalTime tza 1704067200000)) = (2023, 12, 31)"
      using scenario_start_west [OF assms] scenario_calendar by simp
    show "(1::int) \<le> 3" by simp
    show "19722 = MakeDay 2023 (12 - 1) (31 + dayOffset 3 index)"
      using that(1) scenario_calendar by simp
    show "civilFromDays 19722 = (2023, 12, 31)" by (rule scenario_calendar)
    show "\<bar>19722 * msPerDay + TimeWithinDay (LocalTime tza 1704067200000) - tza\<bar>
        \<le> 8640000000000000"
      using scenario_start_west [OF assms] by (simp add: msPerDay_def)
    show "\<bar>19722 * msPerDay + slotHour 3 index * msPerHour + slotMinute 3 index * msPerMinute
           - tza\<bar> \<le> 8640000000000000"
      using that assms by (simp add: msPerDay_def msPerHour_def msPerMinute_def)
  qed
  show "slotDateStr tza (parseDate fp ''2024-01-01'') 3 0 = ''2023-12-31 09:00''"
    using s [of 0] by (simp add: scenario_slots scenario_strings padStart_def)
  show "slotDateStr tza (parseDate fp ''2024-01-01'') 3 (Suc 0) = ''2023-12-31 13:17''"
    using s [of "Suc 0"] by (simp add: scenario_slots scenario_strings padStart_def)
  show "slotDateStr tza (parseDate fp ''2024-01-01'') 3 (Suc (Suc 0)) = ''2023-12-31 17:34''"
    using s [of "Suc (Suc 0)"] by (simp add: scenario_slots scenario_strings padStart_def)
qed

section \<open>What the scheduled items receive\<close>




















section \<open>The end-to-end scenario\<close>

lemma scheduleCampaign_scenario_UTC:
  "scheduleCampaign fp 0 [\<lparr>sourceUrl = u, analysis = a, variations = [v1, v2, v3]\<rparr>]
     \<lparr>pinsPerDay = Num 3, startDate = ''2024-01-01'', variationsPerUrl = n\<rparr>
   = [\<lparr>sourceUrl = u, analysis = a,
       variations = [v1\<lparr>scheduledDate := Some ''2024-01-01 09:00''\<rparr>,
                     v2\<lparr>scheduledDate := Some ''2024-01-01 13:17''\<rparr>,
                     v3\<lparr>scheduledDate := Some ''2024-01-01 17:34''\<rparr>]\<rparr>]"
  by (simp add: scheduleCampaign_stamp effectivePinsPerDay_def slotDateStr_UTC_perDay3)

lemma scheduleCampaign_scenario_east_of_UTC:
  fixes tza :: int
  assumes "0 \<le> tza" "tza < 86400000"
  shows "scheduleCampaign fp tza [\<lparr>sourceUrl = u, analysis = a, variations = [v1, v2, v3]\<rparr>]
     \<lparr>pinsPerDay = Num 3, startDate = ''2024-01-01'', variationsPerUrl = n\<rparr>
   = [\<lparr>sourceUrl = u, analysis = a,
       variations = [v1\<lparr>scheduledDate := Some ''2024-01-01 09:00''\<rparr>,
                     v2\<lparr>scheduledDate := Some ''2024-01-01 13:17''\<rparr>,
                     v3\<lparr>scheduledDate := Some ''2024-01-01 17:34''\<rparr>]\<rparr>]"
  by (simp add: scheduleCampaign_stamp effectivePinsPerDay_def slotDateStr_scenario_east [OF assms])

lemma scheduleCampaign_scenario_any_zone_west_of_UTC:
  fixes tza :: int
  assumes "- 86400000 \<le> tza" "tza < 0"
  shows "scheduleCampaign fp tza [\<lparr>sourceUrl = u, analysis = a, variations = [v1, v2, v3]\<rparr>]
     \<lparr>pinsPerDay = Num 3, startDate = ''2024-01-01'', variationsPerUrl = n\<rparr>
   = [\<lparr>sourceUrl = u, analysis = a,
       variations = [v1\<lparr>scheduledDate := Some ''2023-12-31 09:00''\<rparr>,
                     v2\<lparr>scheduledDate := Some ''2023-12-31 13:17''\<rparr>,
                     v3\<lparr>scheduledDate := Some ''2023-12-31 17:34''\<rparr>]\<rparr>]"
  by (simp add: scheduleCampaign_stamp effectivePinsPerDay_def slotDateStr_scenario_west [OF assms])

text \<open>
  Claim C1, the end-to-end scenario (one source with three variations, 3 pins per day,
  start date \<^verbatim>\<open>2024-01-01\<close>), at a runtime whose local time is five hours behind UTC
  (\<open>tza = -18000000\<close> milliseconds). \<^verbatim>\<open>new Date("2024-01-01")\<close> is midnight UTC,
  which is 19:00 of 31 December 2023 in local time, and the getters and setters the
  source calls work on local time. The three variations are scheduled at
  \<^verbatim>\<open>2023-12-31 09:00\<close>, \<^verbatim>\<open>2023-12-31 13:17\<close> and \<^verbatim>\<open>2023-12-31 17:34\<close>: the hours and
  minutes of the claim, on the day before the start date. The lemmas above show the
  dates of the claim (\<^verbatim>\<open>2024-01-01\<close>) for every constant offset at or east of UTC, and
  the day before for every constant offset west of UTC.
\<close>

theorem scheduleCampaign_scenario_west_of_UTC:
  "scheduleCampaign fp (- 18000000) [\<lparr>sourceUrl = u, analysis = a, variations = [v1, v2, v3]\<rparr>]
     \<lparr>pinsPerDay = Num 3, startDate = ''2024-01-01'', variationsPerUrl = n\<rparr>
   = [\<lparr>sourceUrl = u, analysis = a,
       variations = [v1\<lparr>scheduledDate := Some ''2023-12-31 09:00''\<rparr>,
                     v2\<lparr>scheduledDate := Some ''2023-12-31 13:17''\<rparr>,
                     v3\<lparr>scheduledDate := Some ''2023-12-31 17:34''\<rparr>]\<rparr>]"
  by (simp add: scheduleCampaign_stamp effectivePinsPerDay_def slotDateStr_west_perDay3)

section \<open>Loops that stop at the first error\<close>

lemma collect_map_Inr [simp]: "collect (map Inr xs) = Inr xs"
  by (induction xs) simp_all

lemma collect_first_error [simp]: "collect (map Inr ys @ Inl e # zs) = Inl e"
  by (induction ys) simp_all

lemma collect_Inr_D: "collect xs = Inr rs \<Longrightarrow> xs = map Inr rs"
proof (induction xs arbitrary: rs)
  case Nil
  then show ?case by simp
next
  case (Cons x xs)
  from Cons.prems obtain r rs' where x: "x = Inr r" and c: "collect xs = Inr rs'" and rs: "rs = r # rs'"
    by (cases x; cases "collect xs") auto
  from Cons.IH [OF c] show ?case using x rs by simp
qed

lemma collect_eq_Inr: "collect xs = Inr rs \<longleftrightarrow> xs = map Inr rs"
  using collect_Inr_D [of xs rs] by auto

lemma collect_eq_Inl: "collect xs = Inl e \<Longrightarrow> \<exists>ys zs. xs = map Inr ys @ Inl e # zs"
proof (induction xs)
  case Nil
  then show ?case by simp
next
  case (Cons x xs)
  show ?case
  proof (cases x)
    case (Inl e')
    then have "x # xs = map Inr [] @ Inl e # xs" using Cons.prems by simp
    then show ?thesis by blast
  next
    case (Inr r)
    then have "collect xs = Inl e" using Cons.prems by (simp split: sum.splits)
    then obtain ys zs where "xs = map Inr ys @ Inl e # zs" using Cons.IH by blast
    then have "x # xs = map Inr (r # ys) @ Inl e # zs" using Inr by simp
    then show ?thesis by blast
  qed
qed

section \<open>Row projection\<close>

lemma startsWith_Nil_https [simp]: "\<not> startsWith [] ''https://''"
  by simp

lemma projectRow_gate:
  "\<not> hasPublicUrl v \<Longrightarrow> projectRow r v = Inl (CloudSyncMissing (title v))"
  by (auto simp: hasPublicUrl_def projectRow_def split: option.splits)

lemma projectRow_no_board:
  "hasPublicUrl v \<Longrightarrow> suggestedBoards v = [] \<Longrightarrow> projectRow r v = Inl (TypeError ''replace'')"
  by (auto simp: hasPublicUrl_def projectRow_def split: option.splits)

lemma projectRow_projectable:
  assumes "projectable (r, v)"
  shows "\<exists>m b bs. publicMediaUrl v = Some m \<and> startsWith m ''https://'' \<and>
           suggestedBoards v = b # bs \<and>
           projectRow r v =
             Inr [quoted (escapeQuotes (title v)), quoted m, quoted (escapeQuotes b),
                  quoted (escapeQuotes (description v)), quoted (sourceUrl r),
                  quoted (case scheduledDate v of None \<Rightarrow> [] | Some d \<Rightarrow> d),
                  quoted (escapeQuotes (join (keywords v) '', ''))]"
proof -
  obtain m where m: "publicMediaUrl v = Some m" "startsWith m ''https://''"
    using assms by (auto simp: projectable_def hasPublicUrl_def split: option.splits)
  obtain b bs where b: "suggestedBoards v = b # bs"
    using assms by (cases "suggestedBoards v") (auto simp: projectable_def)
  have "m \<noteq> []" using m(2) by auto
  then show ?thesis using m b by (simp add: projectRow_def)
qed

lemma projectRow_Inr_iff: "(\<exists>row. projectRow r v = Inr row) \<longleftrightarrow> projectable (r, v)"
proof
  assume "\<exists>row. projectRow r v = Inr row"
  then show "projectable (r, v)"
    by (auto simp: projectRow_def projectable_def hasPublicUrl_def
        split: option.splits if_splits list.splits)
next
  assume "projectable (r, v)"
  then show "\<exists>row. projectRow r v = Inr row"
    using projectRow_projectable by blast
qed

lemma projectRow_length: "projectRow r v = Inr row \<Longrightarrow> length row = 7"
  by (auto simp: projectRow_def split: option.splits if_splits list.splits)

lemma projectRows_alt:
  "projectRows data = collect (map (\<lambda>p. projectRow (fst p) (snd p)) (pairs data))"
  by (simp add: projectRows_def case_prod_unfold)

lemma map_projectRow_projectable:
  "list_all projectable ps \<Longrightarrow> \<exists>rows. map (\<lambda>p. projectRow (fst p) (snd p)) ps = map Inr rows"
proof (induction ps)
  case Nil
  then show ?case by simp
next
  case (Cons p ps)
  from Cons.prems obtain row where row: "projectRow (fst p) (snd p) = Inr row"
    using projectRow_Inr_iff [of "fst p" "snd p"] by auto
  from Cons obtain rows where "map (\<lambda>p. projectRow (fst p) (snd p)) ps = map Inr rows" by auto
  then have "map (\<lambda>p. projectRow (fst p) (snd p)) (p # ps) = map Inr (row # rows)"
    using row by simp
  then show ?case by blast
qed

lemma projectRows_first_failure:
  assumes "pairs data = before @ (r, v) # after" and "list_all projectable before"
    and "projectRow r v = Inl e"
  shows "projectRows data = Inl e"
proof -
  obtain rows where "map (\<lambda>p. projectRow (fst p) (snd p)) before = map Inr rows"
    using map_projectRow_projectable [OF assms(2)] by blast
  then show ?thesis using assms(1,3) by (simp add: projectRows_alt)
qed

lemma projectRows_all_projectable:
  assumes "list_all projectable (pairs data)"
  shows "\<exists>rows. projectRows data = Inr rows \<and> length rows = length (pairs data)"
proof -
  obtain rows where rows: "map (\<lambda>p. projectRow (fst p) (snd p)) (pairs data) = map Inr rows"
    using map_projectRow_projectable [OF assms] by blast
  have "length rows = length (pairs data)" using arg_cong [OF rows, of length] by simp
  then show ?thesis using rows by (simp add: projectRows_alt)
qed

lemma projectRows_Inr_map:
  "projectRows data = Inr rows \<longleftrightarrow>
   map (\<lambda>p. projectRow (fst p) (snd p)) (pairs data) = map Inr rows"
  by (simp add: projectRows_alt collect_eq_Inr)

lemma projectRows_Inr_projectable:
  assumes "projectRows data = Inr rows"
  shows "list_all projectable (pairs data) \<and> length rows = length (pairs data)"
proof -
  have eq: "map (\<lambda>p. projectRow (fst p) (snd p)) (pairs data) = map Inr rows"
    using assms by (simp add: projectRows_Inr_map)
  have "projectable p" if "p \<in> set (pairs data)" for p
  proof -
    have "projectRow (fst p) (snd p) \<in> set (map (\<lambda>p. projectRow (fst p) (snd p)) (pairs data))"
      using that by simp
    then have "projectRow (fst p) (snd p) \<in> set (map Inr rows)"
      unfolding eq .
    then show ?thesis using projectRow_Inr_iff [of "fst p" "snd p"] by auto
  qed
  moreover have "length rows = length (pairs data)" using arg_cong [OF eq, of length] by simp
  ultimately show ?thesis by (simp add: list_all_iff)
qed

lemma map_eq_append_Cons_D:
  assumes "map f xs = ys @ z # zs"
  shows "\<exists>us v ws. xs = us @ v # ws \<and> f v = z"
proof -
  let ?n = "length ys"
  have "length (map f xs) = length (ys @ z # zs)" using assms by simp
  then have n: "?n < length xs" by simp
  have "f (xs ! ?n) = map f xs ! ?n" using n by simp
  also have "\<dots> = z" unfolding assms by simp
  finally have "f (xs ! ?n) = z" .
  moreover have "xs = take ?n xs @ xs ! ?n # drop (Suc ?n) xs"
    using n by (rule id_take_nth_drop)
  ultimately show ?thesis by blast
qed

lemma projectRows_Inl_cases:
  assumes "projectRows data = Inl e"
  shows "\<exists>before r v after. pairs data = before @ (r, v) # after \<and> projectRow r v = Inl e"
proof -
  have "collect (map (\<lambda>p. projectRow (fst p) (snd p)) (pairs data)) = Inl e"
    using assms by (simp add: projectRows_alt)
  then obtain ys zs where
    "map (\<lambda>p. projectRow (fst p) (snd p)) (pairs data) = map Inr ys @ Inl e # zs"
    using collect_eq_Inl by blast
  then have "\<exists>us p ws. pairs data = us @ p # ws \<and> projectRow (fst p) (snd p) = Inl e"
    by (rule map_eq_append_Cons_D)
  then obtain before p after where
    "pairs data = before @ p # after" "projectRow (fst p) (snd p) = Inl e"
    by blast
  then have "pairs data = before @ (fst p, snd p) # after \<and> projectRow (fst p) (snd p) = Inl e"
    by simp
  then show ?thesis by blast
qed

lemma length_pairs: "length (pairs data) = totalVariations data"
  by (induction data) (simp_all add: pairs_def totalVariations_def)

lemma generateCSVString_projection_error:
  "projectRows data = Inl e \<Longrightarrow> generateCSVString data = Inl e"
  by (simp add: generateCSVString_def)

section \<open>Row validation\<close>

lemma all_Inr_map:
  "(\<And>x. x \<in> set xs \<Longrightarrow> \<exists>r. x = Inr r) \<Longrightarrow> \<exists>ys. xs = map Inr ys"
proof (induction xs)
  case Nil
  then show ?case by simp
next
  case (Cons x xs)
  obtain r where r: "x = Inr r" using Cons.prems [of x] by auto
  obtain ys where "xs = map Inr ys" using Cons by auto
  then have "x # xs = map Inr (r # ys)" using r by simp
  then show ?case by (rule exI)
qed

lemma collect_nth_Inl:
  assumes "i < length xs" and "xs ! i = Inl e" and "\<And>j. j < i \<Longrightarrow> \<exists>r. xs ! j = Inr r"
  shows "collect xs = Inl e"
proof -
  have "\<exists>r. x = Inr r" if "x \<in> set (take i xs)" for x
  proof -
    from that obtain j where "j < length (take i xs)" "x = take i xs ! j"
      by (auto simp: in_set_conv_nth)
    then show ?thesis using assms(1,3) by simp
  qed
  then obtain ys where ys: "take i xs = map Inr ys" using all_Inr_map by blast
  have "xs = take i xs @ xs ! i # drop (Suc i) xs" using assms(1) by (rule id_take_nth_drop)
  then have "xs = map Inr ys @ Inl e # drop (Suc i) xs" using ys assms(2) by simp
  then have "collect xs = collect (map Inr ys @ Inl e # drop (Suc i) xs)" by simp
  then show ?thesis by simp
qed

lemma collect_Inl_nth:
  assumes "collect xs = Inl e"
  shows "\<exists>i<length xs. xs ! i = Inl e \<and> (\<forall>j<i. \<exists>r. xs ! j = Inr r)"
proof -
  obtain ys zs where xs: "xs = map Inr ys @ Inl e # zs" using collect_eq_Inl [OF assms] by blast
  have "length ys < length xs" using xs by simp
  moreover have "xs ! length ys = Inl e" using xs by (simp add: nth_append)
  moreover have "\<forall>j<length ys. \<exists>r. xs ! j = Inr r" using xs by (simp add: nth_append)
  ultimately show ?thesis by blast
qed

lemma validateRows_nth:
  "i < length rows \<Longrightarrow>
   map (\<lambda>(idx, row). validateRow row (idx + 1)) (enumerate 0 rows) ! i
     = validateRow (rows ! i) (i + 1)"
  by (simp add: nth_enumerate_eq)

lemma validateRows_Inl_D:
  assumes "validateRows rows = Inl e"
  shows "\<exists>i<length rows. validateRow (rows ! i) (i + 1) = Inl e \<and>
           (\<forall>j<i. \<exists>b. validateRow (rows ! j) (j + 1) = Inr b)"
proof -
  let ?xs = "map (\<lambda>(idx, row). validateRow row (idx + 1)) (enumerate 0 rows)"
  have "collect ?xs = Inl e" using assms by (simp add: validateRows_def)
  then obtain i where i: "i < length ?xs" "?xs ! i = Inl e" "\<forall>j<i. \<exists>r. ?xs ! j = Inr r"
    using collect_Inl_nth by blast
  have "i < length rows" using i(1) by simp
  moreover have "validateRow (rows ! i) (i + 1) = Inl e"
    using i(2) validateRows_nth [OF \<open>i < length rows\<close>] by simp
  moreover have "\<exists>b. validateRow (rows ! j) (j + 1) = Inr b" if "j < i" for j
  proof -
    have "j < length rows" using that \<open>i < length rows\<close> by simp
    then show ?thesis using i(3) that validateRows_nth [of j rows] by auto
  qed
  ultimately show ?thesis by blast
qed

lemma validateRows_first_error:
  assumes "i < length rows" and "validateRow (rows ! i) (i + 1) = Inl e"
    and "\<And>j. j < i \<Longrightarrow> \<exists>b. validateRow (rows ! j) (j + 1) = Inr b"
  shows "validateRows rows = Inl e"
proof -
  let ?xs = "map (\<lambda>(idx, row). validateRow row (idx + 1)) (enumerate 0 rows)"
  have "collect ?xs = Inl e"
  proof (rule collect_nth_Inl [of i])
    show "i < length ?xs" using assms(1) by simp
    show "?xs ! i = Inl e" using assms(1,2) validateRows_nth [of i rows] by simp
    show "\<exists>r. ?xs ! j = Inr r" if "j < i" for j
    proof -
      have "j < length rows" using that assms(1) by simp
      then show ?thesis using assms(3) [OF that] validateRows_nth [of j rows] by simp
    qed
  qed
  then show ?thesis by (simp add: validateRows_def)
qed

lemma validateRow_error_kinds:
  "validateRow row idx = Inl e \<Longrightarrow>
   (\<exists>fault. e = RowInvalid idx fault) \<or> (e = TypeError ''substring'' \<and> length row < 2)"
  by (auto simp: validateRow_def Let_def cellAt_def split: if_splits option.splits)

lemma projectRow_error_kinds:
  "projectRow r v = Inl e \<Longrightarrow>
   e = CloudSyncMissing (title v) \<and> \<not> hasPublicUrl v
   \<or> e = TypeError ''replace'' \<and> hasPublicUrl v \<and> suggestedBoards v = []"
  by (auto simp: projectRow_def hasPublicUrl_def split: option.splits if_splits list.splits)

lemma projectRows_row_length:
  assumes "projectRows data = Inr rows" and "i < length rows"
  shows "length (rows ! i) = 7"
proof -
  have eq: "map (\<lambda>p. projectRow (fst p) (snd p)) (pairs data) = map Inr rows"
    using assms(1) by (simp add: projectRows_Inr_map)
  have len: "length rows = length (pairs data)" using arg_cong [OF eq, of length] by simp
  have "map (\<lambda>p. projectRow (fst p) (snd p)) (pairs data) ! i = map Inr rows ! i"
    using eq by simp
  then have "projectRow (fst (pairs data ! i)) (snd (pairs data ! i)) = Inr (rows ! i)"
    using assms(2) len by simp
  then show ?thesis by (rule projectRow_length)
qed

lemma generateCSVString_cases:
  "generateCSVString data = res \<Longrightarrow>
   (\<exists>e. projectRows data = Inl e \<and> res = Inl e)
   \<or> (\<exists>rows. projectRows data = Inr rows \<and> length rows \<noteq> length data * 3
         \<and> res = Inl (BatchIntegrityFailure (length data * 3) (length rows)))
   \<or> (\<exists>rows e. projectRows data = Inr rows \<and> length rows = length data * 3
         \<and> validateRows rows = Inl e \<and> res = Inl e)
   \<or> (\<exists>rows bs. projectRows data = Inr rows \<and> length rows = length data * 3
         \<and> validateRows rows = Inr bs \<and> res = Inr (serialize rows))"
  by (auto simp: generateCSVString_def Let_def split: sum.splits if_splits)


section \<open>The public-URL gate\<close>

lemma pairs_withPreviews:
  "pairs (withPreviews g data) =
     map (\<lambda>p. ((fst p)\<lparr>variations := map (\<lambda>v. v\<lparr>generatedImageUrl := g v\<rparr>) (variations (fst p))\<rparr>,
               (snd p)\<lparr>generatedImageUrl := g (snd p)\<rparr>)) (pairs data)"
  by (induction data) (simp_all add: pairs_def withPreviews_def comp_def)

lemma projectRow_ignores_preview:
  "projectRow (r\<lparr>variations := vs\<rparr>) (v\<lparr>generatedImageUrl := x\<rparr>) = projectRow r v"
  by (simp add: projectRow_def split: option.splits list.splits)

lemma projectRows_withPreviews: "projectRows (withPreviews g data) = projectRows data"
  by (simp add: projectRows_alt pairs_withPreviews comp_def projectRow_ignores_preview)

lemma length_withPreviews: "length (withPreviews g data) = length data"
  by (simp add: withPreviews_def)

lemma generateCSVString_withPreviews:
  "generateCSVString (withPreviews g data) = generateCSVString data"
  by (simp add: generateCSVString_def projectRows_withPreviews length_withPreviews)

lemma generateCSVString_gate_blocks:
  assumes "p \<in> set (pairs data)" and "\<not> hasPublicUrl (snd p)"
  shows "\<exists>e. generateCSVString data = Inl e"
proof (cases "projectRows data")
  case (Inl e)
  then show ?thesis by (simp add: generateCSVString_projection_error)
next
  case (Inr rows)
  then have "list_all projectable (pairs data)" using projectRows_Inr_projectable by blast
  then have "projectable p" using assms(1) by (simp add: list_all_iff)
  then show ?thesis using assms(2) by (simp add: projectable_def)
qed

text \<open>
  Claim C2, as amended. If some variation has no \<^verbatim>\<open>publicMediaUrl\<close> starting with
  \<^verbatim>\<open>https://\<close>, \<open>generateCSVString\<close> throws and returns nothing. The error is the
  ``Cloud Sync Missing'' error carrying the title of the first such variation in input
  order, provided every variation before it is projected, that is, passes the gate and
  has a first suggested board. The result does not depend on \<^verbatim>\<open>generatedImageUrl\<close>:
  replacing every local preview by anything gives the same result.
\<close>

theorem export_gate_names_first_offender:
  "((\<exists>p \<in> set (pairs data). \<not> hasPublicUrl (snd p)) \<longrightarrow>
      (\<exists>e. generateCSVString data = Inl e)) \<and>
   (pairs data = before @ (r, v) # after \<and> list_all projectable before \<and> \<not> hasPublicUrl v \<longrightarrow>
      generateCSVString data = Inl (CloudSyncMissing (title v)) \<and>
      message (CloudSyncMissing (title v)) =
        ''Cloud Sync Missing: Variation '' @ [dquote] @ title v @ [dquote]
          @ '' has no public HTTPS URL. Export blocked.'') \<and>
   generateCSVString (withPreviews g data) = generateCSVString data"
proof (intro conjI impI)
  assume "\<exists>p \<in> set (pairs data). \<not> hasPublicUrl (snd p)"
  then show "\<exists>e. generateCSVString data = Inl e"
    using generateCSVString_gate_blocks by blast
next
  assume a: "pairs data = before @ (r, v) # after \<and> list_all projectable before \<and> \<not> hasPublicUrl v"
  then have "projectRow r v = Inl (CloudSyncMissing (title v))" by (simp add: projectRow_gate)
  with a have "projectRows data = Inl (CloudSyncMissing (title v))"
    using projectRows_first_failure by blast
  then show "generateCSVString data = Inl (CloudSyncMissing (title v))"
    by (rule generateCSVString_projection_error)
next
  show "message (CloudSyncMissing (title v)) =
        ''Cloud Sync Missing: Variation '' @ [dquote] @ title v @ [dquote]
          @ '' has no public HTTPS URL. Export blocked.''"
    by simp
next
  show "generateCSVString (withPreviews g data) = generateCSVString data"
    by (rule generateCSVString_withPreviews)
qed

theorem export_gate_names_first_offender_witness:
  "pairs [sampleSource ''https://a.example'' [samplePin ''First pin'', dataUriPin, samplePin ''Third pin'']]
     = [(sampleSource ''https://a.example'' [samplePin ''First pin'', dataUriPin, samplePin ''Third pin''],
         samplePin ''First pin'')]
       @ (sampleSource ''https://a.example'' [samplePin ''First pin'', dataUriPin, samplePin ''Third pin''],
          dataUriPin)
       # [(sampleSource ''https://a.example'' [samplePin ''First pin'', dataUriPin, samplePin ''Third pin''],
           samplePin ''Third pin'')] \<and>
   projectable (sampleSource ''https://a.example'' [samplePin ''First pin'', dataUriPin, samplePin ''Third pin''],
         samplePin ''First pin'') \<and>
   \<not> hasPublicUrl dataUriPin \<and>
   generateCSVString
     [sampleSource ''https://a.example'' [samplePin ''First pin'', dataUriPin, samplePin ''Third pin'']]
     = Inl (CloudSyncMissing ''Second pin'')"
proof -
  let ?src = "sampleSource ''https://a.example'' [samplePin ''First pin'', dataUriPin, samplePin ''Third pin'']"
  have p: "pairs [?src] = [(?src, samplePin ''First pin'')] @ (?src, dataUriPin) # [(?src, samplePin ''Third pin'')]"
    by (simp add: pairs_def sampleSource_def)
  have ok: "projectable (?src, samplePin ''First pin'')"
    by (simp add: projectable_def hasPublicUrl_def samplePin_def)
  have bad: "\<not> hasPublicUrl dataUriPin"
    by (simp add: hasPublicUrl_def dataUriPin_def samplePin_def)
  have t: "title dataUriPin = ''Second pin''" by (simp add: dataUriPin_def samplePin_def)
  show ?thesis
    using export_gate_names_first_offender
      [of "[?src]" "[(?src, samplePin ''First pin'')]" ?src dataUriPin "[(?src, samplePin ''Third pin'')]"]
      p ok bad t
    by simp
qed

text \<open>
  Claim C2 as stated fails: the second variation carries a data URI, but the first one,
  whose URL is public, has no suggested board, and reading
  \<^verbatim>\<open>suggestedBoards[0].replace\<close> throws a \<^verbatim>\<open>TypeError\<close> before the gate is reached
  for the second variation. The error thrown does not name the title of the offending
  variation.
\<close>

theorem export_gate_counterexample:
  "\<not> hasPublicUrl dataUriPin \<and> title dataUriPin = ''Second pin'' \<and>
   generateCSVString [sampleSource ''https://a.example'' [boardlessPin, dataUriPin, samplePin ''Third pin'']]
     = Inl (TypeError ''replace'') \<and>
   \<not> includesStr (message (TypeError ''replace'')) ''Second pin''"
proof -
  let ?src = "sampleSource ''https://a.example'' [boardlessPin, dataUriPin, samplePin ''Third pin'']"
  have p: "pairs [?src] = [] @ (?src, boardlessPin) # [(?src, dataUriPin), (?src, samplePin ''Third pin'')]"
    by (simp add: pairs_def sampleSource_def)
  have "projectRow ?src boardlessPin = Inl (TypeError ''replace'')"
    by (simp add: projectRow_no_board hasPublicUrl_def boardlessPin_def samplePin_def)
  then have "projectRows [?src] = Inl (TypeError ''replace'')"
    using projectRows_first_failure [OF p] by simp
  then have g: "generateCSVString [?src] = Inl (TypeError ''replace'')"
    by (rule generateCSVString_projection_error)
  have bad: "\<not> hasPublicUrl dataUriPin"
    by (simp add: hasPublicUrl_def dataUriPin_def samplePin_def)
  have t: "title dataUriPin = ''Second pin''" by (simp add: dataUriPin_def samplePin_def)
  have m: "\<not> includesStr (message (TypeError ''replace'')) ''Second pin''"
    by simp
  show ?thesis using g bad t m by simp
qed

section \<open>Batch integrity\<close>

lemma totalVariations_three:
  "list_all (\<lambda>r. length (variations r) = 3) data \<Longrightarrow> totalVariations data = length data * 3"
  by (induction data) (simp_all add: totalVariations_def)

lemma projectRows_error_kinds:
  assumes "projectRows data = Inl e"
  shows "(\<exists>t. e = CloudSyncMissing t) \<or>
         e = TypeError ''replace'' \<and>
           (\<exists>before r v after. pairs data = before @ (r, v) # after \<and> hasPublicUrl v \<and>
              suggestedBoards v = [])"
proof -
  obtain before r v after where
    p: "pairs data = before @ (r, v) # after" and "projectRow r v = Inl e"
    using projectRows_Inl_cases [OF assms] by blast
  then show ?thesis using projectRow_error_kinds [of r v e] by blast
qed

lemma validateRows_error_kinds:
  assumes "projectRows data = Inr rows" and "validateRows rows = Inl e"
  shows "\<exists>i fault. i < length rows \<and> e = RowInvalid (i + 1) fault \<and>
           validateRow (rows ! i) (i + 1) = Inl e \<and>
           (\<forall>j<i. \<exists>b. validateRow (rows ! j) (j + 1) = Inr b)"
proof -
  obtain i where i: "i < length rows" "validateRow (rows ! i) (i + 1) = Inl e"
    "\<forall>j<i. \<exists>b. validateRow (rows ! j) (j + 1) = Inr b"
    using validateRows_Inl_D [OF assms(2)] by blast
  have "length (rows ! i) = 7" using assms(1) i(1) by (rule projectRows_row_length)
  then obtain fault where "e = RowInvalid (i + 1) fault"
    using validateRow_error_kinds [OF i(2)] by auto
  then show ?thesis using i by blast
qed

lemma generateCSVString_batch_D:
  assumes "generateCSVString data = Inl (BatchIntegrityFailure e f)"
  shows "list_all projectable (pairs data) \<and> totalVariations data \<noteq> length data * 3 \<and>
         e = length data * 3 \<and> f = totalVariations data"
proof -
  from generateCSVString_cases [OF assms]
  consider (proj) "projectRows data = Inl (BatchIntegrityFailure e f)"
    | (count) rows where "projectRows data = Inr rows" "length rows \<noteq> length data * 3"
        "e = length data * 3" "f = length rows"
    | (row) rows where "projectRows data = Inr rows"
        "validateRows rows = Inl (BatchIntegrityFailure e f)"
    by auto
  then show ?thesis
  proof cases
    case proj
    then show ?thesis using projectRows_error_kinds by blast
  next
    case count
    then show ?thesis using projectRows_Inr_projectable [OF count(1)] by (simp add: length_pairs)
  next
    case row
    then show ?thesis using validateRows_error_kinds by blast
  qed
qed

text \<open>
  Claim C3, as amended. When every variation is projected (it passes the public-URL
  gate and has a first suggested board) and the total number of variations differs
  from three times the number of sources, \<open>generateCSVString\<close> throws the batch
  integrity error with both counts and returns nothing. With exactly three variations
  per source the counts agree and no batch integrity error is thrown.
\<close>

theorem batch_integrity_check:
  "(list_all projectable (pairs data) \<and> totalVariations data \<noteq> length data * 3 \<longrightarrow>
      generateCSVString data =
        Inl (BatchIntegrityFailure (length data * 3) (totalVariations data)) \<and>
      message (BatchIntegrityFailure (length data * 3) (totalVariations data)) =
        ''Batch Integrity Failure: Expected '' @ String (int (length data * 3))
          @ '' rows, found '' @ String (int (totalVariations data)) @ ''.'') \<and>
   (list_all (\<lambda>r. length (variations r) = 3) data \<longrightarrow>
      totalVariations data = length data * 3 \<and>
      (\<forall>e f. generateCSVString data \<noteq> Inl (BatchIntegrityFailure e f)))"
proof (intro conjI impI allI)
  assume a: "list_all projectable (pairs data) \<and> totalVariations data \<noteq> length data * 3"
  then obtain rows where "projectRows data = Inr rows" "length rows = length (pairs data)"
    using projectRows_all_projectable by blast
  then show "generateCSVString data =
        Inl (BatchIntegrityFailure (length data * 3) (totalVariations data))"
    using a by (simp add: generateCSVString_def length_pairs)
next
  show "message (BatchIntegrityFailure (length data * 3) (totalVariations data)) =
        ''Batch Integrity Failure: Expected '' @ String (int (length data * 3))
          @ '' rows, found '' @ String (int (totalVariations data)) @ ''.''"
    by simp
next
  assume "list_all (\<lambda>r. length (variations r) = 3) data"
  then show "totalVariations data = length data * 3" by (rule totalVariations_three)
next
  fix e f
  assume "list_all (\<lambda>r. length (variations r) = 3) data"
  then have "totalVariations data = length data * 3" by (rule totalVariations_three)
  then show "generateCSVString data \<noteq> Inl (BatchIntegrityFailure e f)"
    using generateCSVString_batch_D by blast
qed


theorem batch_integrity_check_witness:
  "list_all projectable (pairs twoSourcesFivePins) \<and>
   totalVariations twoSourcesFivePins \<noteq> length twoSourcesFivePins * 3 \<and>
   generateCSVString twoSourcesFivePins = Inl (BatchIntegrityFailure 6 5) \<and>
   message (BatchIntegrityFailure 6 5) = ''Batch Integrity Failure: Expected 6 rows, found 5.'' \<and>
   list_all (\<lambda>r. length (variations r) = 3) oneSourceThreePins \<and>
   generateCSVString oneSourceThreePins \<noteq> Inl (BatchIntegrityFailure 3 3)"
proof -
  have a: "list_all projectable (pairs twoSourcesFivePins)" by code_simp
  have b: "totalVariations twoSourcesFivePins = 5" by code_simp
  have c: "length twoSourcesFivePins = 2" by (simp add: twoSourcesFivePins_def)
  have d: "list_all (\<lambda>r. length (variations r) = 3) oneSourceThreePins"
    by (simp add: oneSourceThreePins_def sampleSource_def)
  have m: "String 6 = ''6''" "String 5 = ''5''" by code_simp+
  show ?thesis
    using batch_integrity_check [of twoSourcesFivePins] batch_integrity_check [of oneSourceThreePins]
      a b c d m
    by simp
qed

text \<open>
  Claim C3 as stated fails: one source with a single variation that passes the
  public-URL gate but has no suggested board. The count (1) differs from 3, yet the
  error thrown is the \<^verbatim>\<open>TypeError\<close> of the projection, not the batch integrity
  error: the projection runs before the count is compared.
\<close>

theorem batch_integrity_counterexample:
  "list_all (\<lambda>p. hasPublicUrl (snd p)) (pairs [sampleSource ''https://a.example'' [boardlessPin]]) \<and>
   totalVariations [sampleSource ''https://a.example'' [boardlessPin]]
     \<noteq> length [sampleSource ''https://a.example'' [boardlessPin]] * 3 \<and>
   generateCSVString [sampleSource ''https://a.example'' [boardlessPin]] = Inl (TypeError ''replace'')"
proof -
  let ?src = "sampleSource ''https://a.example'' [boardlessPin]"
  have p: "pairs [?src] = [] @ (?src, boardlessPin) # []"
    by (simp add: pairs_def sampleSource_def)
  have h: "hasPublicUrl boardlessPin"
    by (simp add: hasPublicUrl_def boardlessPin_def samplePin_def)
  have "projectRow ?src boardlessPin = Inl (TypeError ''replace'')"
    using h by (simp add: projectRow_no_board boardlessPin_def)
  then have "projectRows [?src] = Inl (TypeError ''replace'')"
    using projectRows_first_failure [OF p] by simp
  then have g: "generateCSVString [?src] = Inl (TypeError ''replace'')"
    by (rule generateCSVString_projection_error)
  have t: "totalVariations [?src] = 1" by (simp add: totalVariations_def sampleSource_def)
  show ?thesis using g h t p by simp
qed

section \<open>The unguarded first board\<close>

lemma generateCSVString_TypeError_D:
  assumes "generateCSVString data = Inl (TypeError m)"
  shows "m = ''replace'' \<and>
         (\<exists>before r v after. pairs data = before @ (r, v) # after \<and> hasPublicUrl v \<and>
            suggestedBoards v = [])"
proof -
  from generateCSVString_cases [OF assms]
  consider (proj) "projectRows data = Inl (TypeError m)"
    | (row) rows where "projectRows data = Inr rows" "validateRows rows = Inl (TypeError m)"
    by auto
  then show ?thesis
  proof cases
    case proj
    then show ?thesis using projectRows_error_kinds by blast
  next
    case row
    then show ?thesis using validateRows_error_kinds by blast
  qed
qed

lemma stripQuotes_quoted [simp]: "stripQuotes (quoted s) = s"
  by (simp add: stripQuotes_def quoted_def)

lemma escapeQuotes_eq_Nil [simp]: "escapeQuotes s = [] \<longleftrightarrow> s = []"
  by (cases s) (simp_all add: escapeQuotes_def)

lemma projectRows_nth:
  assumes "projectRows data = Inr rows" and "i < length rows"
  shows "i < length (pairs data) \<and>
         projectRow (fst (pairs data ! i)) (snd (pairs data ! i)) = Inr (rows ! i)"
proof -
  have eq: "map (\<lambda>p. projectRow (fst p) (snd p)) (pairs data) = map Inr rows"
    using assms(1) by (simp add: projectRows_Inr_map)
  have len: "length rows = length (pairs data)" using arg_cong [OF eq, of length] by simp
  have "map (\<lambda>p. projectRow (fst p) (snd p)) (pairs data) ! i = map Inr rows ! i"
    using eq by simp
  then show ?thesis using assms(2) len by simp
qed

lemma projectRow_board_cell:
  assumes "projectRow r v = Inr row"
  shows "\<exists>b bs. suggestedBoards v = b # bs \<and> stripQuotes (row ! 2) = escapeQuotes b"
proof -
  have "projectable (r, v)" using assms projectRow_Inr_iff by blast
  then obtain m b bs where "suggestedBoards v = b # bs"
    "projectRow r v =
       Inr [quoted (escapeQuotes (title v)), quoted m, quoted (escapeQuotes b),
            quoted (escapeQuotes (description v)), quoted (sourceUrl r),
            quoted (case scheduledDate v of None \<Rightarrow> [] | Some d \<Rightarrow> d),
            quoted (escapeQuotes (join (keywords v) '', ''))]"
    using projectRow_projectable by blast
  then show ?thesis using assms by auto
qed

lemma validateRow_BoardEmpty_D:
  assumes "validateRow row idx = Inl (RowInvalid k BoardEmpty)" and "length row = 7"
  shows "k = idx \<and> stripQuotes (row ! 2) = []"
  using assms
  by (auto simp: validateRow_def Let_def cellAt_def falsy_def split: if_splits option.splits)

lemma generateCSVString_Inr_projectable:
  assumes "generateCSVString data = Inr out"
  shows "list_all projectable (pairs data)"
proof -
  from generateCSVString_cases [OF assms]
  obtain rows where "projectRows data = Inr rows" by auto
  then show ?thesis using projectRows_Inr_projectable by blast
qed

text \<open>
  Claim C10. The projection reads \<^verbatim>\<open>suggestedBoards[0].replace\<close> without a guard.
  When every variation has a non-empty list of boards, no \<^verbatim>\<open>TypeError\<close> is thrown,
  and the export returns a result only for such inputs. When the first variation that
  is not projected passes the gate (so that the row of lines 44 to 52 is built) and has
  an empty list of boards, the export throws the \<^verbatim>\<open>TypeError\<close> of reading
  \<^verbatim>\<open>replace\<close> from \<^verbatim>\<open>undefined\<close>, not one of the validation errors. The error
  ``Board empty'' for row \<open>k\<close> is thrown only when the \<open>k\<close>-th variation has a first
  board that is the empty string.
\<close>

theorem export_needs_first_board:
  "(list_all (\<lambda>p. suggestedBoards (snd p) \<noteq> []) (pairs data) \<longrightarrow>
      (\<forall>m. generateCSVString data \<noteq> Inl (TypeError m))) \<and>
   (generateCSVString data = Inr out \<longrightarrow>
      list_all (\<lambda>p. suggestedBoards (snd p) \<noteq> []) (pairs data)) \<and>
   (pairs data = before @ (r, v) # after \<and> list_all projectable before \<and> hasPublicUrl v \<and>
    suggestedBoards v = [] \<longrightarrow>
      generateCSVString data = Inl (TypeError ''replace'')) \<and>
   (generateCSVString data = Inl (RowInvalid k BoardEmpty) \<longrightarrow>
      0 < k \<and> k \<le> length (pairs data) \<and>
      (\<exists>rest. suggestedBoards (snd (pairs data ! (k - 1))) = [] # rest))"
proof (intro conjI impI allI)
  fix m
  assume a: "list_all (\<lambda>p. suggestedBoards (snd p) \<noteq> []) (pairs data)"
  show "generateCSVString data \<noteq> Inl (TypeError m)"
  proof
    assume "generateCSVString data = Inl (TypeError m)"
    then obtain before r v after where
      "pairs data = before @ (r, v) # after" "suggestedBoards v = []"
      using generateCSVString_TypeError_D by blast
    then show False using a by simp
  qed
next
  assume "generateCSVString data = Inr out"
  then have "list_all projectable (pairs data)" by (rule generateCSVString_Inr_projectable)
  then show "list_all (\<lambda>p. suggestedBoards (snd p) \<noteq> []) (pairs data)"
    by (simp add: list_all_iff projectable_def)
next
  assume a: "pairs data = before @ (r, v) # after \<and> list_all projectable before \<and>
             hasPublicUrl v \<and> suggestedBoards v = []"
  then have "projectRow r v = Inl (TypeError ''replace'')" by (simp add: projectRow_no_board)
  with a have "projectRows data = Inl (TypeError ''replace'')"
    using projectRows_first_failure by blast
  then show "generateCSVString data = Inl (TypeError ''replace'')"
    by (rule generateCSVString_projection_error)
next
  assume g: "generateCSVString data = Inl (RowInvalid k BoardEmpty)"
  from generateCSVString_cases [OF g]
  consider (proj) "projectRows data = Inl (RowInvalid k BoardEmpty)"
    | (row) rows where "projectRows data = Inr rows"
        "validateRows rows = Inl (RowInvalid k BoardEmpty)"
    by auto
  then have "0 < k \<and> k \<le> length (pairs data) \<and>
      (\<exists>rest. suggestedBoards (snd (pairs data ! (k - 1))) = [] # rest)"
  proof cases
    case proj
    then show ?thesis using projectRows_error_kinds by blast
  next
    case row
    obtain i where i: "i < length rows"
      "validateRow (rows ! i) (i + 1) = Inl (RowInvalid k BoardEmpty)"
      using validateRows_Inl_D [OF row(2)] by blast
    have len: "length (rows ! i) = 7" using row(1) i(1) by (rule projectRows_row_length)
    have k: "k = i + 1" and empty: "stripQuotes (rows ! i ! 2) = []"
      using validateRow_BoardEmpty_D [OF i(2) len] by simp_all
    have n: "i < length (pairs data)"
      and pr: "projectRow (fst (pairs data ! i)) (snd (pairs data ! i)) = Inr (rows ! i)"
      using projectRows_nth [OF row(1) i(1)] by simp_all
    obtain b bs where sb: "suggestedBoards (snd (pairs data ! i)) = b # bs"
      and sq: "stripQuotes (rows ! i ! 2) = escapeQuotes b"
      using projectRow_board_cell [OF pr] by blast
    from sq [symmetric] empty have "escapeQuotes b = []" by (rule trans)
    then have "b = []" by simp
    then have "suggestedBoards (snd (pairs data ! i)) = [] # bs" using sb by simp
    then show ?thesis using k n by simp
  qed
  then show "0 < k" and "k \<le> length (pairs data)"
    and "\<exists>rest. suggestedBoards (snd (pairs data ! (k - 1))) = [] # rest"
    by simp_all
qed

theorem export_needs_first_board_witness:
  "list_all (\<lambda>p. suggestedBoards (snd p) \<noteq> []) (pairs oneSourceThreePins) \<and>
   generateCSVString oneSourceThreePins \<noteq> Inl (TypeError ''replace'') \<and>
   generateCSVString oneSourceThreePins = Inr (serialize (rowsOf oneSourceThreePins)) \<and>
   pairs [sampleSource ''https://a.example'' [samplePin ''A1'', boardlessPin]]
     = [(sampleSource ''https://a.example'' [samplePin ''A1'', boardlessPin], samplePin ''A1'')]
       @ (sampleSource ''https://a.example'' [samplePin ''A1'', boardlessPin], boardlessPin) # [] \<and>
   projectable (sampleSource ''https://a.example'' [samplePin ''A1'', boardlessPin], samplePin ''A1'') \<and>
   hasPublicUrl boardlessPin \<and> suggestedBoards boardlessPin = [] \<and>
   generateCSVString [sampleSource ''https://a.example'' [samplePin ''A1'', boardlessPin]]
     = Inl (TypeError ''replace'') \<and>
   generateCSVString [sampleSource ''https://a.example'' [samplePin ''A1'', emptyBoardPin, samplePin ''A3'']]
     = Inl (RowInvalid 2 BoardEmpty) \<and>
   (\<exists>rest. suggestedBoards
      (snd (pairs [sampleSource ''https://a.example'' [samplePin ''A1'', emptyBoardPin, samplePin ''A3'']]
              ! (2 - 1))) = [] # rest)"
proof -
  let ?s2 = "sampleSource ''https://a.example'' [samplePin ''A1'', boardlessPin]"
  let ?s3 = "sampleSource ''https://a.example'' [samplePin ''A1'', emptyBoardPin, samplePin ''A3'']"
  have p: "pairs [?s2] = [(?s2, samplePin ''A1'')] @ (?s2, boardlessPin) # []"
    by (simp add: pairs_def sampleSource_def)
  have ok: "projectable (?s2, samplePin ''A1'')"
    by (simp add: projectable_def hasPublicUrl_def samplePin_def)
  have h: "hasPublicUrl boardlessPin" "suggestedBoards boardlessPin = []"
    by (simp_all add: hasPublicUrl_def boardlessPin_def samplePin_def)
  have e: "generateCSVString [?s3] = Inl (RowInvalid 2 BoardEmpty)"
    by code_simp
  have s: "generateCSVString oneSourceThreePins = Inr (serialize (rowsOf oneSourceThreePins))"
    by code_simp
  have a: "list_all (\<lambda>p. suggestedBoards (snd p) \<noteq> []) (pairs oneSourceThreePins)"
    using export_needs_first_board [of oneSourceThreePins "serialize (rowsOf oneSourceThreePins)"] s
    by simp
  show ?thesis
    using export_needs_first_board [of oneSourceThreePins]
      export_needs_first_board [of "[?s2]" _ "[(?s2, samplePin ''A1'')]" ?s2 boardlessPin "[]"]
      export_needs_first_board [of "[?s3]" _ _ _ _ _ 2]
      a p ok h e s
    by simp
qed

section \<open>Per-row validation\<close>

lemma length_seven:
  "length row = 7 \<Longrightarrow> \<exists>t m b d l dt k. row = [t, m, b, d, l, dt, k]"
  by (auto simp: numeral_eq_Suc length_Suc_conv)

lemma validateRow_seven:
  "validateRow [t, m, b, d, l, dt, k] idx =
     (if stripQuotes t = [] then Inl (RowInvalid idx TitleEmpty)
      else if stripQuotes m = [] \<or> \<not> startsWith (stripQuotes m) ''https://''
              \<or> includesStr (stripQuotes m) ''data:image'' \<or> includesStr (stripQuotes m) ''blob:''
        then Inl (RowInvalid idx (MediaUrlNotPublic (take 30 (stripQuotes m))))
      else if stripQuotes b = [] then Inl (RowInvalid idx BoardEmpty)
      else if stripQuotes d = [] then Inl (RowInvalid idx DescriptionEmpty)
      else if stripQuotes l = [] \<or> \<not> startsWith (stripQuotes l) ''https://''
        then Inl (RowInvalid idx LinkNotHttps)
      else if stripQuotes dt = [] then Inl (RowInvalid idx DateEmpty)
      else if stripQuotes k = [] then Inl (RowInvalid idx KeywordsEmpty)
      else Inr True)"
  by (simp add: validateRow_def cellAt_def falsy_def Let_def)

lemma rowInvalid_seven:
  "rowInvalid [t, m, b, d, l, dt, k] \<longleftrightarrow>
     stripQuotes t = [] \<or> stripQuotes m = [] \<or> stripQuotes b = [] \<or> stripQuotes d = []
     \<or> stripQuotes l = [] \<or> stripQuotes dt = [] \<or> stripQuotes k = []
     \<or> \<not> startsWith (stripQuotes m) ''https://''
     \<or> includesStr (stripQuotes m) ''data:image'' \<or> includesStr (stripQuotes m) ''blob:''
     \<or> \<not> startsWith (stripQuotes l) ''https://''"
  by (auto simp: rowInvalid_def Let_def)

lemma validateRow_valid:
  assumes "length row = 7" and "\<not> rowInvalid row"
  shows "validateRow row idx = Inr True"
proof -
  obtain t m b d l dt k where row: "row = [t, m, b, d, l, dt, k]"
    using length_seven [OF assms(1)] by blast
  show ?thesis using assms(2) unfolding row validateRow_seven rowInvalid_seven by simp
qed

lemma validateRow_invalid:
  assumes "length row = 7" and "rowInvalid row"
  shows "\<exists>fault. validateRow row idx = Inl (RowInvalid idx fault) \<and>
           faultHolds fault (map stripQuotes row)"
proof -
  obtain t m b d l dt k where row: "row = [t, m, b, d, l, dt, k]"
    using length_seven [OF assms(1)] by blast
  show ?thesis using assms(2) unfolding row validateRow_seven rowInvalid_seven by auto
qed

lemma validateRow_Inr_valid:
  assumes "length row = 7" and "validateRow row idx = Inr b"
  shows "\<not> rowInvalid row"
  using validateRow_invalid [OF assms(1), of idx] assms(2) by auto

lemma generateCSVString_invalid_row_blocks:
  assumes "projectRows data = Inr rows" and "i < length rows" and "rowInvalid (rows ! i)"
  shows "\<exists>e. generateCSVString data = Inl e"
proof (cases "generateCSVString data")
  case (Inl e)
  then show ?thesis by blast
next
  case (Inr out)
  from generateCSVString_cases [OF Inr] assms(1)
  obtain bs where "validateRows rows = Inr bs" by auto
  then have eq: "map (\<lambda>(idx, row). validateRow row (idx + 1)) (enumerate 0 rows) = map Inr bs"
    by (simp add: validateRows_def collect_eq_Inr)
  have "length bs = length rows" using arg_cong [OF eq, of length] by simp
  then have "validateRow (rows ! i) (i + 1) = Inr (bs ! i)"
    using arg_cong [OF eq, of "\<lambda>xs. xs ! i"] validateRows_nth [OF assms(2)] assms(2) by simp
  moreover have "length (rows ! i) = 7" using assms(1,2) by (rule projectRows_row_length)
  ultimately show ?thesis using validateRow_Inr_valid assms(3) by blast
qed

text \<open>
  Claim C9, as amended. Let the projection succeed with \<open>rows\<close>. If some row is
  invalid (after the surrounding quotes of its cells are stripped: an empty cell, a
  Media URL that is not HTTPS or contains \<^verbatim>\<open>data:image\<close> or \<^verbatim>\<open>blob:\<close>, a Link that
  is not HTTPS), then \<open>generateCSVString\<close> throws and returns nothing. When the row
  count is the expected one (three times the number of sources), the error is the row
  error of the first invalid row: it carries the 1-based index of that row and a fault
  that holds of its cells, and its message is \<^verbatim>\<open>Row <index>: <fault text>\<close>.
\<close>

theorem row_validation_reports_first_invalid_row:
  "projectRows data = Inr rows \<longrightarrow>
     ((\<exists>i<length rows. rowInvalid (rows ! i)) \<longrightarrow> (\<exists>e. generateCSVString data = Inl e)) \<and>
     (length rows = length data * 3 \<and> i < length rows \<and> rowInvalid (rows ! i) \<and>
      (\<forall>j<i. \<not> rowInvalid (rows ! j)) \<longrightarrow>
        (\<exists>fault. generateCSVString data = Inl (RowInvalid (i + 1) fault) \<and>
           faultHolds fault (map stripQuotes (rows ! i)) \<and>
           message (RowInvalid (i + 1) fault) =
             ''Row '' @ String (int (i + 1)) @ '': '' @ faultText fault))"
proof (intro impI conjI)
  assume "projectRows data = Inr rows" and "\<exists>i<length rows. rowInvalid (rows ! i)"
  then show "\<exists>e. generateCSVString data = Inl e"
    using generateCSVString_invalid_row_blocks by blast
next
  assume pr: "projectRows data = Inr rows"
    and a: "length rows = length data * 3 \<and> i < length rows \<and> rowInvalid (rows ! i) \<and>
            (\<forall>j<i. \<not> rowInvalid (rows ! j))"
  have len: "length (rows ! j) = 7" if "j < length rows" for j
    using pr that by (rule projectRows_row_length)
  obtain fault where f: "validateRow (rows ! i) (i + 1) = Inl (RowInvalid (i + 1) fault)"
    "faultHolds fault (map stripQuotes (rows ! i))"
    using validateRow_invalid [of "rows ! i" "i + 1"] len [of i] a by blast
  have "\<exists>b. validateRow (rows ! j) (j + 1) = Inr b" if "j < i" for j
    using validateRow_valid [of "rows ! j" "j + 1"] len [of j] a that by auto
  with a f(1) have "validateRows rows = Inl (RowInvalid (i + 1) fault)"
    using validateRows_first_error [of i rows] by blast
  then have "generateCSVString data = Inl (RowInvalid (i + 1) fault)"
    using pr a by (simp add: generateCSVString_def)
  then show "\<exists>fault. generateCSVString data = Inl (RowInvalid (i + 1) fault) \<and>
           faultHolds fault (map stripQuotes (rows ! i)) \<and>
           message (RowInvalid (i + 1) fault) =
             ''Row '' @ String (int (i + 1)) @ '': '' @ faultText fault"
    using f(2) by auto
qed

theorem row_validation_reports_first_invalid_row_witness:
  "projectRows emptyDescription = Inr (rowsOf emptyDescription) \<and>
   length (rowsOf emptyDescription) = length emptyDescription * 3 \<and>
   (2::nat) < length (rowsOf emptyDescription) \<and>
   rowInvalid (rowsOf emptyDescription ! 2) \<and>
   \<not> rowInvalid (rowsOf emptyDescription ! 0) \<and> \<not> rowInvalid (rowsOf emptyDescription ! 1) \<and>
   (\<exists>e. generateCSVString emptyDescription = Inl e) \<and>
   (\<exists>fault. generateCSVString emptyDescription = Inl (RowInvalid (2 + 1) fault) \<and>
      faultHolds fault (map stripQuotes (rowsOf emptyDescription ! 2))) \<and>
   generateCSVString emptyDescription = Inl (RowInvalid 3 DescriptionEmpty) \<and>
   message (RowInvalid 3 DescriptionEmpty) = ''Row 3: Description empty.''"
proof -
  have a: "projectRows emptyDescription = Inr (rowsOf emptyDescription)" by code_simp
  have b: "length (rowsOf emptyDescription) = 3" by code_simp
  have c: "length emptyDescription = 1" by (simp add: emptyDescription_def)
  have d: "rowInvalid (rowsOf emptyDescription ! 2)" by code_simp
  have e: "\<not> rowInvalid (rowsOf emptyDescription ! 0)" "\<not> rowInvalid (rowsOf emptyDescription ! 1)"
    by code_simp+
  have f: "\<forall>j<2. \<not> rowInvalid (rowsOf emptyDescription ! j)"
    using e by (simp add: numeral_2_eq_2 All_less_Suc)
  have g: "generateCSVString emptyDescription = Inl (RowInvalid 3 DescriptionEmpty)" by code_simp
  have m: "message (RowInvalid 3 DescriptionEmpty) = ''Row 3: Description empty.''" by code_simp
  have ex: "\<exists>i<length (rowsOf emptyDescription). rowInvalid (rowsOf emptyDescription ! i)"
    using b d by (intro exI [of _ 2]) simp
  show ?thesis
    using row_validation_reports_first_invalid_row [of emptyDescription "rowsOf emptyDescription" 2]
      a b c d e f g m ex
    by simp
qed


text \<open>
  Claim C9 as stated fails when the row count is not the expected one: one source with
  two variations, the second with an empty description. The projection succeeds and
  row 2 is invalid, but the count is compared first (line 57, before line 62): the error
  is the batch integrity error, whose message carries no row index and names no field.
\<close>

theorem row_index_counterexample:
  "projectRows twoPinsOneBad = Inr (rowsOf twoPinsOneBad) \<and>
   rowInvalid (rowsOf twoPinsOneBad ! 1) \<and>
   generateCSVString twoPinsOneBad = Inl (BatchIntegrityFailure 3 2) \<and>
   message (BatchIntegrityFailure 3 2) = ''Batch Integrity Failure: Expected 3 rows, found 2.''"
proof -
  have a: "projectRows twoPinsOneBad = Inr (rowsOf twoPinsOneBad)" by code_simp
  have b: "rowInvalid (rowsOf twoPinsOneBad ! 1)" by code_simp
  have c: "generateCSVString twoPinsOneBad = Inl (BatchIntegrityFailure 3 2)" by code_simp
  have d: "message (BatchIntegrityFailure 3 2)
      = ''Batch Integrity Failure: Expected 3 rows, found 2.''" by code_simp
  show ?thesis using a b c d by simp
qed

section \<open>Serialization\<close>

lemma join_headers:
  "join headers '','' = ''Title,Media URL,Pinterest board,Description,Link,Publish date,Keywords''"
  by (simp add: headers_def)

lemma escapeQuotes_quote_free: "dquote \<notin> set s \<Longrightarrow> escapeQuotes s = s"
  by (induction s) (auto simp: escapeQuotes_def)

lemma projectRow_specRow:
  assumes "projectRow r v = Inr row" and "unescapedFieldsQuoteFree (r, v)"
  shows "row = specRow r v"
proof -
  have "projectable (r, v)" using assms(1) projectRow_Inr_iff by blast
  then obtain m b bs where m: "publicMediaUrl v = Some m" and b: "suggestedBoards v = b # bs"
    and p: "projectRow r v =
       Inr [quoted (escapeQuotes (title v)), quoted m, quoted (escapeQuotes b),
            quoted (escapeQuotes (description v)), quoted (sourceUrl r),
            quoted (case scheduledDate v of None \<Rightarrow> [] | Some d \<Rightarrow> d),
            quoted (escapeQuotes (join (keywords v) '', ''))]"
    using projectRow_projectable by blast
  have q: "escapeQuotes m = m" "escapeQuotes (sourceUrl r) = sourceUrl r"
    "escapeQuotes (case scheduledDate v of None \<Rightarrow> [] | Some d \<Rightarrow> d)
       = (case scheduledDate v of None \<Rightarrow> [] | Some d \<Rightarrow> d)"
    using assms(2) m by (simp_all add: unescapedFieldsQuoteFree_def escapeQuotes_quote_free)
  show ?thesis using assms(1) p m b q by (simp add: specRow_def)
qed

lemma projectRows_specRows:
  assumes "projectRows data = Inr rows" and "list_all unescapedFieldsQuoteFree (pairs data)"
  shows "rows = map (\<lambda>p. specRow (fst p) (snd p)) (pairs data)"
proof (rule nth_equalityI)
  have len: "length rows = length (pairs data)"
    using projectRows_Inr_projectable [OF assms(1)] by simp
  then show "length rows = length (map (\<lambda>p. specRow (fst p) (snd p)) (pairs data))" by simp
  fix i
  assume i: "i < length rows"
  then have "projectRow (fst (pairs data ! i)) (snd (pairs data ! i)) = Inr (rows ! i)"
    using projectRows_nth [OF assms(1)] by simp
  moreover have "unescapedFieldsQuoteFree (fst (pairs data ! i), snd (pairs data ! i))"
    using assms(2) i len by (simp add: list_all_length)
  ultimately have "rows ! i = specRow (fst (pairs data ! i)) (snd (pairs data ! i))"
    by (rule projectRow_specRow)
  then show "rows ! i = map (\<lambda>p. specRow (fst p) (snd p)) (pairs data) ! i"
    using i len by simp
qed

lemma generateCSVString_matches_spec_when_quote_free:
  assumes "generateCSVString data = Inr out" and "list_all unescapedFieldsQuoteFree (pairs data)"
  shows "out = specCSV data"
proof -
  from generateCSVString_cases [OF assms(1)]
  obtain rows where rows: "projectRows data = Inr rows" and out: "out = serialize rows"
    by auto
  have "rows = map (\<lambda>p. specRow (fst p) (snd p)) (pairs data)"
    using rows assms(2) by (rule projectRows_specRows)
  then show ?thesis
    unfolding out by (simp add: serialize_def specCSV_def join_headers comp_def)
qed

text \<open>
  Claim C4 on a source URL that contains a double quote,
  \<^verbatim>\<open>https://a.example/"x\<close>, with three valid variations. The export succeeds, and
  the Link cell of every line is the URL between quotes with its inner quote left
  single, where the claim (\<open>specCSV\<close>) has it doubled: the source applies
  \<^verbatim>\<open>replace(/"/g, '""')\<close> to title, board, description and keywords but not to the
  Media URL, the Link and the Publish date. \<open>generateCSVString_matches_spec_when_quote_free\<close>
  above shows that the output is the one of the claim whenever these three fields contain
  no double quote.
\<close>

theorem link_quotes_not_doubled:
  "generateCSVString quoteInLink = Inr (serialize (rowsOf quoteInLink)) \<and>
   serialize (rowsOf quoteInLink) \<noteq> specCSV quoteInLink \<and>
   map (\<lambda>row. row ! 4) (rowsOf quoteInLink)
     = replicate 3 (quoted (''https://a.example/'' @ [dquote] @ ''x'')) \<and>
   map (\<lambda>p. specRow (fst p) (snd p) ! 4) (pairs quoteInLink)
     = replicate 3 (quoted (''https://a.example/'' @ [dquote, dquote] @ ''x''))"
proof -
  have a: "generateCSVString quoteInLink = Inr (serialize (rowsOf quoteInLink))" by code_simp
  have b: "serialize (rowsOf quoteInLink) \<noteq> specCSV quoteInLink" by code_simp
  have c: "map (\<lambda>row. row ! 4) (rowsOf quoteInLink)
     = replicate 3 (quoted (''https://a.example/'' @ [dquote] @ ''x''))" by code_simp
  have d: "map (\<lambda>p. specRow (fst p) (snd p) ! 4) (pairs quoteInLink)
     = replicate 3 (quoted (''https://a.example/'' @ [dquote, dquote] @ ''x''))" by code_simp
  show ?thesis using a b c d by simp
qed

end
